theory Spec2Isabelle
  imports Complex_Main
begin

unbundle bit_operations_syntax

section \<open>Nodes, edges and paths\<close>

text \<open>
  The graph primitives of the pathfinding library (classes \<^verbatim>\<open>node\<close>, \<^verbatim>\<open>edge\<close>,
  \<^verbatim>\<open>path\<close>) are used by every function below. A node is known by its number in
  its graph (\<^verbatim>\<open>getNum\<close>); it carries a terrain type, a bitmask over the basic terrain
  classes, a table of clearance values indexed by terrain bitmask, and the long labels
  \<^verbatim>\<open>kParent\<close> and \<^verbatim>\<open>kAbstractionLevel\<close>. An edge joins two node numbers, has a
  weight and a clearance table indexed by capability. Node numbers are unsigned in the
  library; the comparisons of the code between an \<^verbatim>\<open>int\<close> copy of a node number and
  \<^verbatim>\<open>getNum()\<close> are comparisons of the unsigned values, so numbers are naturals here.
  C++ \<^verbatim>\<open>int\<close> quantities (terrain masks, clearances, map coordinates) are integers;
  no arithmetic below leaves the range of a map's dimensions. Weights are reals.
\<close>

record node =
  getNum :: nat
  getTerrainType :: int
  nodeClearance :: "int \<Rightarrow> int"
  kParent :: int
  kAbstractionLevel :: int
  getParentCluster :: int

record edge =
  getFrom :: nat
  getTo :: nat
  getWeight :: real
  edgeClearance :: "int \<Rightarrow> int"

text \<open>A path is the linked list of the nodes it visits, here the list of their numbers.\<close>

type_synonym path = "nat list"

section \<open>AnnotatedHierarchicalAStar::evaluate\<close>

text \<open>
  The part of the search object that \<^verbatim>\<open>evaluate\<close> reads: the edge being traversed
  (\<^verbatim>\<open>traversing()\<close>, null when there is none), and the capability and the clearance
  the search was asked for.
\<close>

record searchAlgorithm =
  traversing :: "edge option"
  getCapability :: int
  getClearance :: int

text \<open>
  \<^verbatim>\<open>bool AnnotatedHierarchicalAStar::evaluate(node* n, node* target)\<close>; a null
  pointer is \<open>None\<close>.
\<close>

definition evaluate :: "searchAlgorithm \<Rightarrow> node option \<Rightarrow> node option \<Rightarrow> bool" where
  "evaluate this n target =
     (case n of
        None \<Rightarrow> False
      | Some n' \<Rightarrow>
          (case target of
             None \<Rightarrow> False
           | Some target' \<Rightarrow>
               (case traversing this of
                  None \<Rightarrow> False
                | Some e \<Rightarrow>
                    (let to = getTo e; from = getFrom e in
                     if getNum n' \<noteq> to \<and> getNum n' \<noteq> from then False
                     else if getNum target' \<noteq> to \<and> getNum target' \<noteq> from then False
                     else
                       (let capability = getCapability this;
                            clearance = getClearance this in
                        if edgeClearance e capability \<ge> clearance then True
                        else False)))))"

section \<open>AnnotatedMapAbstraction::pathable\<close>

text \<open>
  \<^verbatim>\<open>bool AnnotatedMapAbstraction::pathable(node* from, node* to, int terrain, int agentsize)\<close>.
  The search it runs, \<^verbatim>\<open>AnnotatedAStar::getPath\<close>, is not part of these sources:
  it is the parameter \<open>aastar_getPath\<close>, a function of the world \<open>w\<close> it may read
  and change (the map abstraction and the counters of the search) that returns the path
  found, or \<open>None\<close> for a null path, with the world it leaves. Both nodes are
  dereferenced at once, so they are nodes, not possibly-null pointers.
\<close>

definition pathable ::
  "('w \<Rightarrow> node \<Rightarrow> node \<Rightarrow> int \<Rightarrow> int \<Rightarrow> path option \<times> 'w) \<Rightarrow>
   'w \<Rightarrow> node \<Rightarrow> node \<Rightarrow> int \<Rightarrow> int \<Rightarrow> bool \<times> 'w" where
  "pathable aastar_getPath w from to terrain agentsize =
     (if \<not> ((getTerrainType from AND terrain) = terrain
             \<and> (getTerrainType to AND terrain) = terrain
             \<and> nodeClearance from (getTerrainType from) \<ge> agentsize
             \<and> nodeClearance to (getTerrainType to) \<ge> agentsize)
      then (False, w)
      else
        (case aastar_getPath w from to terrain agentsize of
           (Some p, w') \<Rightarrow> (True, w')
         | (None, w') \<Rightarrow> (False, w')))"

section \<open>AnnotatedMapAbstraction: the annotated ground graph\<close>

text \<open>
  The state of an \<^verbatim>\<open>AnnotatedMapAbstraction\<close> that its methods read and write:
  the dimensions and the terrain of the map (\<^verbatim>\<open>getMap()\<close>), the node of every
  tile that has one (an obstacle tile has none; the representation is one node per
  tile), the edges of the graph of abstraction level 0, and the member array
  \<^verbatim>\<open>int validterrains[3]\<close>, a function of the index.
\<close>

record AnnotatedMapAbstraction =
  getMapWidth :: int
  getMapHeight :: int
  mapTerrainType :: "int \<Rightarrow> int \<Rightarrow> int"
  nodeAt :: "int \<times> int \<Rightarrow> node option"
  graphEdges :: "edge list"
  validterrains :: "nat \<Rightarrow> int"

text \<open>
  Modelled from the spec: \<^verbatim>\<open>getNodeFromMap(x, y)\<close> is declared by the map
  abstraction the class extends, outside these sources. By the specification a tile has
  no node when it is off the edge of the map or an obstacle.
\<close>

definition getNodeFromMap :: "AnnotatedMapAbstraction \<Rightarrow> int \<Rightarrow> int \<Rightarrow> node option" where
  "getNodeFromMap this x y =
     (if 0 \<le> x \<and> x < getMapWidth this \<and> 0 \<le> y \<and> y < getMapHeight this
      then nodeAt this (x, y) else None)"

text \<open>
  Modelled from the spec: the setters of the node class, outside these sources. The
  clearance of a node is a table from terrain subsets to values; \<^verbatim>\<open>setClearance\<close>
  stores an entry and \<^verbatim>\<open>getClearance\<close> (here \<open>nodeClearance\<close>) reads it.
\<close>

definition setTerrainType :: "node \<Rightarrow> int \<Rightarrow> node" where
  "setTerrainType n t = n\<lparr>getTerrainType := t\<rparr>"

definition setClearance :: "node \<Rightarrow> int \<Rightarrow> int \<Rightarrow> node" where
  "setClearance n t v = n\<lparr>nodeClearance := (nodeClearance n)(t := v)\<rparr>"

text \<open>
  The constructor sets the three recognised terrain subsets from the constants
  \<^verbatim>\<open>kGround\<close> and \<^verbatim>\<open>kTrees\<close> of the map library, which are parameters here.
\<close>

definition constructor_validterrains :: "int \<Rightarrow> int \<Rightarrow> nat \<Rightarrow> int" where
  "constructor_validterrains kGround kTrees =
     (\<lambda>i. if i = 0 then kGround else if i = 1 then kTrees else (kGround OR kTrees))"

subsection \<open>annotateMap\<close>

text \<open>
  The loop \<^verbatim>\<open>for(int i=0; i<3; i++)\<close> of the branch in which the three neighbours
  \<open>adj1\<close>, \<open>adj2\<close>, \<open>adj3\<close> exist, on the node \<open>n\<close> being annotated.
\<close>

function annotateInterior ::
  "(nat \<Rightarrow> int) \<Rightarrow> node \<Rightarrow> node \<Rightarrow> node \<Rightarrow> nat \<Rightarrow> node \<Rightarrow> node" where
  "annotateInterior vt adj1 adj2 adj3 i n =
     (if i < 3 then
        annotateInterior vt adj1 adj2 adj3 (i + 1)
          (if (vt i AND getTerrainType n) = getTerrainType n then
             (let min0 = nodeClearance adj1 (vt i);
                  min1 = (if nodeClearance adj2 (vt i) < min0
                          then nodeClearance adj2 (vt i) else min0);
                  min2 = (if nodeClearance adj3 (vt i) < min1
                          then nodeClearance adj3 (vt i) else min1)
              in setClearance n (vt i) (min2 + 1))
           else setClearance n (vt i) 0)
      else n)"
  by pat_completeness auto
termination
  by (relation "measure (\<lambda>(vt, adj1, adj2, adj3, i, n). 3 - i)") auto

text \<open>The loop of the other branch: the tile is on a border or next to an obstacle.\<close>

function annotateBorder :: "(nat \<Rightarrow> int) \<Rightarrow> nat \<Rightarrow> node \<Rightarrow> node" where
  "annotateBorder vt i n =
     (if i < 3 then
        annotateBorder vt (i + 1)
          (if (vt i AND getTerrainType n) = getTerrainType n
           then setClearance n (vt i) 1
           else setClearance n (vt i) 0)
      else n)"
  by pat_completeness auto
termination
  by (relation "measure (\<lambda>(vt, i, n). 3 - i)") auto

text \<open>The body of the two loops over the tiles, at the tile \<open>(x, y)\<close>.\<close>

definition annotateTile :: "AnnotatedMapAbstraction \<Rightarrow> int \<Rightarrow> int \<Rightarrow> AnnotatedMapAbstraction" where
  "annotateTile this x y =
     (case getNodeFromMap this x y of
        None \<Rightarrow> this
      | Some n0 \<Rightarrow>
          (let n = setTerrainType n0 (mapTerrainType this x y);
               adj1 = getNodeFromMap this (x + 1) (y + 1);
               adj2 = getNodeFromMap this (x + 1) y;
               adj3 = getNodeFromMap this x (y + 1)
           in case adj1 of
                None \<Rightarrow> this\<lparr>nodeAt := (nodeAt this)((x, y) \<mapsto> annotateBorder (validterrains this) 0 n)\<rparr>
              | Some a1 \<Rightarrow>
                  (case adj2 of
                     None \<Rightarrow> this\<lparr>nodeAt := (nodeAt this)((x, y) \<mapsto> annotateBorder (validterrains this) 0 n)\<rparr>
                   | Some a2 \<Rightarrow>
                       (case adj3 of
                          None \<Rightarrow> this\<lparr>nodeAt := (nodeAt this)((x, y) \<mapsto> annotateBorder (validterrains this) 0 n)\<rparr>
                        | Some a3 \<Rightarrow>
                            this\<lparr>nodeAt := (nodeAt this)((x, y) \<mapsto>
                                   annotateInterior (validterrains this) a1 a2 a3 0 n)\<rparr>))))"

text \<open>\<^verbatim>\<open>for(int y=getMap()->getMapHeight()-1; y>=0; y--)\<close>, from \<open>y\<close> on.\<close>

function annotateColumn :: "int \<Rightarrow> int \<Rightarrow> AnnotatedMapAbstraction \<Rightarrow> AnnotatedMapAbstraction" where
  "annotateColumn x y this =
     (if y \<ge> 0 then annotateColumn x (y - 1) (annotateTile this x y) else this)"
  by pat_completeness auto
termination
  by (relation "measure (\<lambda>(x, y, this). nat (y + 1))") auto

text \<open>\<^verbatim>\<open>for(int x=getMap()->getMapWidth()-1; x>=0; x--)\<close>, from \<open>x\<close> on.\<close>

function annotateColumns :: "int \<Rightarrow> AnnotatedMapAbstraction \<Rightarrow> AnnotatedMapAbstraction" where
  "annotateColumns x this =
     (if x \<ge> 0 then annotateColumns (x - 1) (annotateColumn x (getMapHeight this - 1) this)
      else this)"
  by pat_completeness auto
termination
  by (relation "measure (\<lambda>(x, this). nat (x + 1))") auto

definition annotateMap :: "AnnotatedMapAbstraction \<Rightarrow> AnnotatedMapAbstraction" where
  "annotateMap this = annotateColumns (getMapWidth this - 1) this"

text \<open>
  The rule of the specification for the clearance of the tile \<open>(x, y)\<close> under the
  terrain subset \<open>s\<close>, in a map whose tiles are annotated: 0 when the terrain type of
  the tile is not a subset of \<open>s\<close>; else 1 when one of the successors \<open>(x+1, y)\<close>,
  \<open>(x, y+1)\<close>, \<open>(x+1, y+1)\<close> is missing; else 1 plus the minimum of their clearances
  under \<open>s\<close>.
\<close>

definition spec_clearance :: "AnnotatedMapAbstraction \<Rightarrow> int \<Rightarrow> int \<Rightarrow> int \<Rightarrow> int" where
  "spec_clearance this x y s =
     (if (s AND mapTerrainType this x y) \<noteq> mapTerrainType this x y then 0
      else
        (case getNodeFromMap this (x + 1) y of
           None \<Rightarrow> 1
         | Some east \<Rightarrow>
             (case getNodeFromMap this x (y + 1) of
                None \<Rightarrow> 1
              | Some south \<Rightarrow>
                  (case getNodeFromMap this (x + 1) (y + 1) of
                     None \<Rightarrow> 1
                   | Some southeast \<Rightarrow>
                       1 + Min {nodeClearance east s, nodeClearance south s,
                                nodeClearance southeast s}))))"

text \<open>
  A tile is annotated when its node, if it has one, carries the terrain type of the
  tile and, for each of the three recognised subsets, the clearance of the rule.
\<close>

definition annotated :: "AnnotatedMapAbstraction \<Rightarrow> int \<Rightarrow> int \<Rightarrow> bool" where
  "annotated this x y =
     (\<forall>n. getNodeFromMap this x y = Some n \<longrightarrow>
        getTerrainType n = mapTerrainType this x y
        \<and> (\<forall>i<3. nodeClearance n (validterrains this i)
                    = spec_clearance this x y (validterrains this i)))"

text \<open>The tiles the loops have already visited when they are about to visit \<open>(x, y)\<close>.\<close>

definition annotatedAfter :: "AnnotatedMapAbstraction \<Rightarrow> int \<Rightarrow> int \<Rightarrow> bool" where
  "annotatedAfter this x y =
     (\<forall>x' y'. x < x' \<or> (x' = x \<and> y < y') \<longrightarrow> annotated this x' y')"

subsection \<open>addMissingEdges\<close>

text \<open>
  Modelled from the spec: \<^verbatim>\<open>graph::findEdge\<close> and \<^verbatim>\<open>graph::addEdge\<close> belong to
  the graph class, outside these sources. The specification lists an adjacency lookup
  among the graph primitives and takes ground edges as joining two nodes, with no
  direction: the lookup finds the first edge that joins the two numbers either way,
  and a new edge goes to the end of the edge list.
\<close>

definition findEdge :: "edge list \<Rightarrow> nat \<Rightarrow> nat \<Rightarrow> edge option" where
  "findEdge es from to =
     find (\<lambda>e. (getFrom e = from \<and> getTo e = to) \<or> (getFrom e = to \<and> getTo e = from)) es"

definition addEdge :: "edge list \<Rightarrow> edge \<Rightarrow> edge list" where
  "addEdge es e = es @ [e]"

text \<open>
  Modelled from the spec: \<^verbatim>\<open>new edge(from, to, weight)\<close>, the constructor of the
  edge class, is outside these sources. An edge carries a clearance table; that of a
  new edge is empty, 0 under every capability, until a clearance is recorded.
\<close>

definition new_edge :: "nat \<Rightarrow> nat \<Rightarrow> real \<Rightarrow> edge" where
  "new_edge from to weight =
     \<lparr>getFrom = from, getTo = to, getWeight = weight, edgeClearance = (\<lambda>_. 0)\<rparr>"

text \<open>
  The loop \<^verbatim>\<open>for(int i=0;i<3;i++)\<close> over the array \<^verbatim>\<open>neighbours\<close>, from its
  first entry on; \<open>g\<close> is the edge list of the graph.
\<close>

fun addEdgesToNeighbours :: "nat \<Rightarrow> node option list \<Rightarrow> edge list \<Rightarrow> edge list" where
  "addEdgesToNeighbours nid [] g = g"
| "addEdgesToNeighbours nid (neighbour # neighbours) g =
     addEdgesToNeighbours nid neighbours
       (case neighbour of
          None \<Rightarrow> g
        | Some nb \<Rightarrow>
            (if findEdge g nid (getNum nb) = None
             then addEdge g (new_edge nid (getNum nb) 1.0)
             else g))"

text \<open>The body of the loops at the tile \<open>(x, y)\<close>.\<close>

definition addMissingEdgesTile ::
  "AnnotatedMapAbstraction \<Rightarrow> int \<Rightarrow> int \<Rightarrow> AnnotatedMapAbstraction" where
  "addMissingEdgesTile this x y =
     (case getNodeFromMap this x y of
        None \<Rightarrow> this
      | Some n \<Rightarrow>
          (let nid = getNum n;
               neighbours = [getNodeFromMap this (x - 1) y,
                             getNodeFromMap this x (y - 1),
                             getNodeFromMap this (x - 1) (y - 1)]
           in this\<lparr>graphEdges := addEdgesToNeighbours nid neighbours (graphEdges this)\<rparr>))"

text \<open>\<^verbatim>\<open>for(int y=0;y<mheight;y++)\<close>, from \<open>y\<close> on.\<close>

function addMissingEdgesColumn ::
  "int \<Rightarrow> int \<Rightarrow> int \<Rightarrow> AnnotatedMapAbstraction \<Rightarrow> AnnotatedMapAbstraction" where
  "addMissingEdgesColumn mheight x y this =
     (if y < mheight then addMissingEdgesColumn mheight x (y + 1) (addMissingEdgesTile this x y)
      else this)"
  by pat_completeness auto
termination
  by (relation "measure (\<lambda>(mheight, x, y, this). nat (mheight - y))") auto

text \<open>\<^verbatim>\<open>for(int x=0; x<mwidth; x++)\<close>, from \<open>x\<close> on.\<close>

function addMissingEdgesColumns ::
  "int \<Rightarrow> int \<Rightarrow> int \<Rightarrow> AnnotatedMapAbstraction \<Rightarrow> AnnotatedMapAbstraction" where
  "addMissingEdgesColumns mwidth mheight x this =
     (if x < mwidth
      then addMissingEdgesColumns mwidth mheight (x + 1) (addMissingEdgesColumn mheight x 0 this)
      else this)"
  by pat_completeness auto
termination
  by (relation "measure (\<lambda>(mwidth, mheight, x, this). nat (mwidth - x))") auto

definition addMissingEdges :: "AnnotatedMapAbstraction \<Rightarrow> AnnotatedMapAbstraction" where
  "addMissingEdges this =
     (let mheight = getMapHeight this;
          mwidth = getMapWidth this
      in addMissingEdgesColumns mwidth mheight 0 this)"

subsection \<open>An example map\<close>

text \<open>
  A map of two columns and two rows, ground in the row \<open>y = 0\<close> and trees in the row
  \<open>y = 1\<close>, with the two basic terrains on the bits 1 and 2. Its four nodes are not
  annotated yet, and its graph has the two edges the map abstraction of the library
  builds: by the comment above \<^verbatim>\<open>addMissingEdges\<close>, neighbouring nodes of different
  terrain types have no edge between them at that point.
\<close>

definition exampleNode :: "nat \<Rightarrow> node" where
  "exampleNode k =
     \<lparr>getNum = k, getTerrainType = 0, nodeClearance = (\<lambda>_. 0), kParent = - 1,
      kAbstractionLevel = 0, getParentCluster = - 1\<rparr>"

definition exampleMap :: AnnotatedMapAbstraction where
  "exampleMap =
     \<lparr>getMapWidth = 2, getMapHeight = 2,
      mapTerrainType = (\<lambda>x y. if y = 0 then 1 else 2),
      nodeAt = [(0, 0) \<mapsto> exampleNode 0, (1, 0) \<mapsto> exampleNode 1,
                (0, 1) \<mapsto> exampleNode 2, (1, 1) \<mapsto> exampleNode 3],
      graphEdges = [new_edge 0 1 1.0, new_edge 2 3 1.0],
      validterrains = constructor_validterrains 1 2\<rparr>"

subsection \<open>Example inputs of evaluate and pathable\<close>

text \<open>
  A search that is traversing the edge between the nodes 0 and 1, whose clearance for
  the capability 1 is 2, and that asks for the capability 1 and the clearance 2.
\<close>

definition exampleSearch :: searchAlgorithm where
  "exampleSearch =
     \<lparr>traversing = Some ((new_edge 0 1 1.0)\<lparr>edgeClearance := (\<lambda>_. 0)(1 := 2)\<rparr>),
      getCapability = 1, getClearance = 2\<rparr>"

text \<open>A ground node of terrain type 1 with the clearance 2 for that terrain.\<close>

definition exampleGroundNode :: "nat \<Rightarrow> node" where
  "exampleGroundNode k =
     (exampleNode k)\<lparr>getTerrainType := 1, nodeClearance := (\<lambda>_. 0)(1 := 2, 3 := 2)\<rparr>"

text \<open>
  A stand-in for the search of \<^verbatim>\<open>pathable\<close>: it finds the two-node path and counts
  its calls in the world, a natural number.
\<close>

definition countingSearch :: "nat \<Rightarrow> node \<Rightarrow> node \<Rightarrow> int \<Rightarrow> int \<Rightarrow> path option \<times> nat" where
  "countingSearch w from to terrain agentsize = (Some [getNum from, getNum to], Suc w)"

section \<open>AnnotatedClusterAbstraction\<close>

text \<open>
  The implementation of the class \<^verbatim>\<open>AnnotatedClusterAbstraction\<close> is not part of
  these sources; its tests and its caller \<^verbatim>\<open>AnnotatedHierarchicalAStar::getPath\<close>
  are. Its methods are modelled from the specification (sections 4.E, 4.G and 4.H).
\<close>

subsection \<open>Cluster decomposition\<close>

record Cluster =
  getClusterId :: nat
  getHOrigin :: int
  getVOrigin :: int
  getWidth :: int
  getHeight :: int

text \<open>
  Modelled from the spec: \<^verbatim>\<open>buildClusters\<close> is missing. For a grid of size
  \<open>(W, H)\<close> and a cluster size \<open>S > 0\<close> it creates \<open>\<lceil>W/S\<rceil> \<sqdot> \<lceil>H/S\<rceil>\<close> clusters in
  row-major order; the cluster \<open>(i, j)\<close> has the origin \<open>(i\<sqdot>S, j\<sqdot>S)\<close>, the width
  \<open>min(S, W - i\<sqdot>S)\<close> and the height \<open>min(S, H - j\<sqdot>S)\<close>. The specification says
  nothing of a cluster size that is not positive; no cluster is created then.
\<close>

definition clustersAcross :: "int \<Rightarrow> int \<Rightarrow> nat" where
  "clustersAcross W S = nat ((W + S - 1) div S)"

definition buildClusters :: "int \<Rightarrow> int \<Rightarrow> int \<Rightarrow> Cluster list" where
  "buildClusters W H S =
     (if S \<le> 0 then []
      else
        map (\<lambda>k. let i = int (k mod clustersAcross W S);
                     j = int (k div clustersAcross W S)
                 in \<lparr>getClusterId = k, getHOrigin = i * S, getVOrigin = j * S,
                     getWidth = min S (W - i * S), getHeight = min S (H - j * S)\<rparr>)
          [0 ..< clustersAcross W S * clustersAcross H S])"

subsection \<open>The abstract graph, the path cache and the endpoints of a query\<close>

text \<open>
  The state the endpoint methods read and write: the nodes of the graph of level 0 by
  number (a caller passes a pointer to one of them, here its number; their \<open>kParent\<close>
  label is the number of their abstract node, or -1), the nodes of the abstract graph,
  its edges with the identity each was given when it was created, the path cache from
  edge identities to paths, \<open>startid\<close> and \<open>goalid\<close>, and the counter the next edge
  identity comes from.
\<close>

record AnnotatedClusterAbstraction =
  groundNodes :: "nat \<Rightarrow> node"
  absNodes :: "node list"
  absEdges :: "(nat \<times> edge) list"
  pathCache :: "nat \<Rightarrow> path option"
  startid :: int
  goalid :: int
  uniqueIDCounter :: nat

datatype error = NullNode | NonZeroAbstractionLevel | NotTraversable

text \<open>
  The annotated A* search and the weight of a path are collaborators outside these
  sources. The search is a parameter: from the state and the numbers of two ground
  nodes, under a capability and a clearance, the path found or \<open>None\<close>; it is asked
  for paths inside the cluster of its first node. The weight of a path is a parameter
  as well.
\<close>

type_synonym annotatedAStar =
  "AnnotatedClusterAbstraction \<Rightarrow> nat \<Rightarrow> nat \<Rightarrow> int \<Rightarrow> int \<Rightarrow> path option"

text \<open>
  Modelled from the spec: the path cache (4.G). \<open>put\<close> overwrites, \<open>get\<close> gives
  null on a miss, \<open>drop\<close> removes, \<open>size\<close> counts.
\<close>

definition addPathToCache :: "AnnotatedClusterAbstraction \<Rightarrow> nat \<Rightarrow> path \<Rightarrow> AnnotatedClusterAbstraction" where
  "addPathToCache this edgeId p = this\<lparr>pathCache := (pathCache this)(edgeId \<mapsto> p)\<rparr>"

definition getPathFromCache :: "AnnotatedClusterAbstraction \<Rightarrow> nat \<Rightarrow> path option" where
  "getPathFromCache this edgeId = pathCache this edgeId"

definition dropPathFromCache :: "nat \<Rightarrow> (nat \<Rightarrow> path option) \<Rightarrow> (nat \<Rightarrow> path option)" where
  "dropPathFromCache edgeId cache = cache(edgeId := None)"

definition getPathCacheSize :: "AnnotatedClusterAbstraction \<Rightarrow> nat" where
  "getPathCacheSize this = card (dom (pathCache this))"

text \<open>
  Modelled from the spec: a new abstract edge (4.H, step 3) gets the next edge
  identity, the clearance of the query under its capability, and its path in the cache.
\<close>

definition addAbstractEdge ::
  "AnnotatedClusterAbstraction \<Rightarrow> nat \<Rightarrow> nat \<Rightarrow> real \<Rightarrow> int \<Rightarrow> int \<Rightarrow> path \<Rightarrow>
   AnnotatedClusterAbstraction" where
  "addAbstractEdge this from to weight capability clearance p =
     (let edgeId = uniqueIDCounter this;
          e = (new_edge from to weight)\<lparr>edgeClearance := (\<lambda>_. 0)(capability := clearance)\<rparr>
      in addPathToCache
           (this\<lparr>absEdges := absEdges this @ [(edgeId, e)], uniqueIDCounter := Suc edgeId\<rparr>)
           edgeId p)"

text \<open>
  Modelled from the spec: step 3 of the insertion. The new abstract node \<open>P\<close> of the
  ground node \<open>p\<close> is connected to every abstract node \<open>q\<close> of the same cluster, among
  those that existed before \<open>P\<close>, for which the search from \<open>p\<close> to the ground node of
  \<open>q\<close> finds a path.
\<close>

fun connectNewNode ::
  "annotatedAStar \<Rightarrow> (path \<Rightarrow> real) \<Rightarrow> int \<Rightarrow> int \<Rightarrow> node \<Rightarrow> nat \<Rightarrow> node list \<Rightarrow>
   AnnotatedClusterAbstraction \<Rightarrow> AnnotatedClusterAbstraction" where
  "connectNewNode aastar distance capability clearance P p [] this = this"
| "connectNewNode aastar distance capability clearance P p (q # qs) this =
     connectNewNode aastar distance capability clearance P p qs
       (if getParentCluster q = getParentCluster P then
          (case aastar this p (nat (kParent q)) capability clearance of
             None \<Rightarrow> this
           | Some found \<Rightarrow>
               addAbstractEdge this (getNum P) (getNum q) (distance found)
                 capability clearance found)
        else this)"

text \<open>
  Modelled from the spec: the insertion of one endpoint \<open>p\<close> (4.H, steps 1 to 3). A
  ground node whose \<open>kParent\<close> label is at least 0 has an abstract node already, and
  nothing is done. Else a new abstract node is created at the end of the abstract
  graph, a copy of the ground node at abstraction level 1 whose \<open>kParent\<close> label links
  back to \<open>p\<close>; the label of \<open>p\<close> becomes its number, which is stored in \<open>startid\<close>
  for the start and in \<open>goalid\<close> for the goal; it belongs to the cluster of \<open>p\<close>.
\<close>

definition insertEndpoint ::
  "annotatedAStar \<Rightarrow> (path \<Rightarrow> real) \<Rightarrow> int \<Rightarrow> int \<Rightarrow> bool \<Rightarrow> nat \<Rightarrow>
   AnnotatedClusterAbstraction \<Rightarrow> AnnotatedClusterAbstraction" where
  "insertEndpoint aastar distance capability clearance isStart p this =
     (if kParent (groundNodes this p) \<ge> 0 then this
      else
        (let newId = length (absNodes this);
             P = (groundNodes this p)\<lparr>getNum := newId, kParent := int p, kAbstractionLevel := 1\<rparr>;
             labelled = this\<lparr>groundNodes :=
                          (groundNodes this)(p := (groundNodes this p)\<lparr>kParent := int newId\<rparr>),
                        absNodes := absNodes this @ [P]\<rparr>;
             recorded = (if isStart then labelled\<lparr>startid := int newId\<rparr>
                         else labelled\<lparr>goalid := int newId\<rparr>)
         in connectNewNode aastar distance capability clearance P p (absNodes this) recorded))"

text \<open>
  Modelled from the spec: a node is traversable under the capability and the clearance
  of the query when its clearance under the capability is at least the clearance.
\<close>

definition traversable :: "node \<Rightarrow> int \<Rightarrow> int \<Rightarrow> bool" where
  "traversable n capability clearance = (nodeClearance n capability \<ge> clearance)"

text \<open>
  Modelled from the spec: \<^verbatim>\<open>insertStartAndGoalNodesIntoAbstractGraph(start, goal)\<close>
  (4.H). It fails when an endpoint is null, then when one is not at abstraction level
  0, then when one is not traversable; else it inserts the start, then the goal.
\<close>

definition insertStartAndGoalNodesIntoAbstractGraph ::
  "annotatedAStar \<Rightarrow> (path \<Rightarrow> real) \<Rightarrow> int \<Rightarrow> int \<Rightarrow> AnnotatedClusterAbstraction \<Rightarrow>
   nat option \<Rightarrow> nat option \<Rightarrow> error + AnnotatedClusterAbstraction" where
  "insertStartAndGoalNodesIntoAbstractGraph aastar distance capability clearance this start goal =
     (case start of
        None \<Rightarrow> Inl NullNode
      | Some s \<Rightarrow>
          (case goal of
             None \<Rightarrow> Inl NullNode
           | Some g \<Rightarrow>
               if kAbstractionLevel (groundNodes this s) \<noteq> 0
                  \<or> kAbstractionLevel (groundNodes this g) \<noteq> 0
               then Inl NonZeroAbstractionLevel
               else if \<not> traversable (groundNodes this s) capability clearance
                       \<or> \<not> traversable (groundNodes this g) capability clearance
               then Inl NotTraversable
               else Inr (insertEndpoint aastar distance capability clearance False g
                          (insertEndpoint aastar distance capability clearance True s this))))"

text \<open>
  Modelled from the spec: \<^verbatim>\<open>removeStartAndGoalNodesFromAbstractGraph()\<close> (4.H). It
  deletes the abstract nodes whose numbers are \<open>startid\<close> and \<open>goalid\<close>, the abstract
  edges incident to them and the cache entries of those edges, resets to -1 the
  \<open>kParent\<close> label of the ground nodes the deleted nodes link back to, and resets
  \<open>startid\<close> and \<open>goalid\<close> to -1.
\<close>

definition isEndpointNode :: "AnnotatedClusterAbstraction \<Rightarrow> node \<Rightarrow> bool" where
  "isEndpointNode this n = (int (getNum n) = startid this \<or> int (getNum n) = goalid this)"

definition isIncident :: "nat list \<Rightarrow> nat \<times> edge \<Rightarrow> bool" where
  "isIncident ids ie = (getFrom (snd ie) \<in> set ids \<or> getTo (snd ie) \<in> set ids)"

definition resetParentLabel :: "node \<Rightarrow> (nat \<Rightarrow> node) \<Rightarrow> (nat \<Rightarrow> node)" where
  "resetParentLabel P ground =
     ground(nat (kParent P) := (ground (nat (kParent P)))\<lparr>kParent := - 1\<rparr>)"

definition removeStartAndGoalNodesFromAbstractGraph ::
  "AnnotatedClusterAbstraction \<Rightarrow> AnnotatedClusterAbstraction" where
  "removeStartAndGoalNodesFromAbstractGraph this =
     (let deleted = filter (isEndpointNode this) (absNodes this);
          ids = map getNum deleted;
          deletedEdges = filter (isIncident ids) (absEdges this)
      in this\<lparr>groundNodes := fold resetParentLabel deleted (groundNodes this),
              absNodes := filter (\<lambda>n. \<not> isEndpointNode this n) (absNodes this),
              absEdges := filter (\<lambda>ie. \<not> isIncident ids ie) (absEdges this),
              pathCache := fold dropPathFromCache (map fst deletedEdges) (pathCache this),
              startid := - 1,
              goalid := - 1\<rparr>)"

text \<open>
  The state between two queries: no endpoint is recorded; the numbers of the abstract
  nodes and the ends of the abstract edges lie below the number of abstract nodes (a
  new node takes the next number); the identities of the edges and the keys of the
  cache lie below the counter of identities; a \<open>kParent\<close> label is -1 or the number
  of an abstract node.
\<close>

definition wellFormed :: "AnnotatedClusterAbstraction \<Rightarrow> bool" where
  "wellFormed this =
     (startid this = - 1 \<and> goalid this = - 1
      \<and> (\<forall>n \<in> set (absNodes this). getNum n < length (absNodes this))
      \<and> (\<forall>ie \<in> set (absEdges this).
            getFrom (snd ie) < length (absNodes this) \<and> getTo (snd ie) < length (absNodes this)
            \<and> fst ie < uniqueIDCounter this)
      \<and> (\<forall>k. pathCache this k \<noteq> None \<longrightarrow> k < uniqueIDCounter this)
      \<and> (\<forall>k. - 1 \<le> kParent (groundNodes this k)))"

text \<open>
  What the insertion of endpoints has added to a state \<open>before\<close> when it has reached
  the state \<open>this\<close>: the abstract nodes \<open>ns\<close> and the abstract edges \<open>es\<close>. The new
  nodes are the recorded endpoints, each linked with a ground node that had no abstract
  node; the new edges touch a new node and have new identities; the cache and the
  ground nodes are as before away from the new edges and from the linked ground nodes.
\<close>

definition insertedOver ::
  "AnnotatedClusterAbstraction \<Rightarrow> node list \<Rightarrow> (nat \<times> edge) list \<Rightarrow>
   AnnotatedClusterAbstraction \<Rightarrow> bool" where
  "insertedOver before ns es this =
     (absNodes this = absNodes before @ ns
      \<and> absEdges this = absEdges before @ es
      \<and> (\<forall>n \<in> set ns.
            length (absNodes before) \<le> getNum n \<and> isEndpointNode this n
            \<and> kParent (groundNodes before (nat (kParent n))) = - 1
            \<and> 0 \<le> kParent (groundNodes this (nat (kParent n)))
            \<and> (groundNodes this (nat (kParent n)))\<lparr>kParent := - 1\<rparr>
                = groundNodes before (nat (kParent n)))
      \<and> (startid this = - 1 \<or> int (length (absNodes before)) \<le> startid this)
      \<and> (goalid this = - 1 \<or> int (length (absNodes before)) \<le> goalid this)
      \<and> (\<forall>ie \<in> set es.
            isIncident (map getNum ns) ie
            \<and> uniqueIDCounter before \<le> fst ie \<and> fst ie < uniqueIDCounter this)
      \<and> uniqueIDCounter before \<le> uniqueIDCounter this
      \<and> (\<forall>k. k \<notin> fst ` set es \<longrightarrow> pathCache this k = pathCache before k)
      \<and> (\<forall>k. k \<notin> (\<lambda>n. nat (kParent n)) ` set ns \<longrightarrow> groundNodes this k = groundNodes before k))"

section \<open>AnnotatedHierarchicalAStar::getPath\<close>

text \<open>
  Modelled from the spec: \<^verbatim>\<open>graph::getNode\<close> and \<^verbatim>\<open>graph::findAnnotatedEdge\<close>
  belong to the graph class, outside these sources. \<open>getNode\<close> gives the node of a
  number, or null. \<open>findAnnotatedEdge\<close> gives the cheapest edge between two nodes,
  in either direction, that is admissible under the capability and the clearance
  (its clearance under the capability is at least the clearance) and no heavier than
  the bound of its last argument; the first inserted wins a tie.
\<close>

definition getNode :: "node list \<Rightarrow> int \<Rightarrow> node option" where
  "getNode g num = find (\<lambda>n. int (getNum n) = num) g"

fun cheapest :: "(nat \<times> edge) option \<Rightarrow> (nat \<times> edge) list \<Rightarrow> (nat \<times> edge) option" where
  "cheapest best [] = best"
| "cheapest None (ie # ies) = cheapest (Some ie) ies"
| "cheapest (Some b) (ie # ies) =
     cheapest (if getWeight (snd ie) < getWeight (snd b) then Some ie else Some b) ies"

definition findAnnotatedEdge ::
  "(nat \<times> edge) list \<Rightarrow> nat \<Rightarrow> nat \<Rightarrow> int \<Rightarrow> int \<Rightarrow> real \<Rightarrow> (nat \<times> edge) option" where
  "findAnnotatedEdge g from to capability clearance bound =
     cheapest None
       (filter (\<lambda>ie. ((getFrom (snd ie) = from \<and> getTo (snd ie) = to)
                        \<or> (getFrom (snd ie) = to \<and> getTo (snd ie) = from))
                     \<and> edgeClearance (snd ie) capability \<ge> clearance
                     \<and> getWeight (snd ie) \<le> bound) g)"

text \<open>
  Modelled from the spec: \<^verbatim>\<open>MAXINT\<close> is a constant of the library, the bound
  that the specification writes as plus infinity; here the largest 32-bit integer.
\<close>

definition MAXINT :: real where
  "MAXINT = 2147483647"

text \<open>
  How a call of \<^verbatim>\<open>getPath\<close> ends: it returns a path or null, an exception of the
  insertion leaves it, it calls \<^verbatim>\<open>exit(-1)\<close>, or it follows a null pointer.
\<close>

datatype outcome = Returned "path option" | Threw error | Exited | NullPointer

text \<open>
  The loop \<^verbatim>\<open>while(tmp->next)\<close>: \<open>thepath\<close> is the path stitched so far and the
  list is the abstract path from \<open>tmp\<close> on. The cached path of the next abstract edge
  is reversed when the edge does not start at the node of \<open>tmp\<close>, and its tail is
  appended when its first node is the last node of \<open>thepath\<close>. A path object has at
  least one node; the empty list stands for a null path.
\<close>

fun stitch ::
  "AnnotatedClusterAbstraction \<Rightarrow> int \<Rightarrow> int \<Rightarrow> path \<Rightarrow> path \<Rightarrow> outcome" where
  "stitch aca capability clearance thepath (u # v # rest) =
     (case thepath of
        [] \<Rightarrow> NullPointer
      | _ # _ \<Rightarrow>
          (case findAnnotatedEdge (absEdges aca) u v capability clearance MAXINT of
             None \<Rightarrow> Exited
           | Some ie \<Rightarrow>
               (case getPathFromCache aca (fst ie) of
                  None \<Rightarrow> NullPointer
                | Some cached \<Rightarrow>
                    (case (if getFrom (snd ie) \<noteq> u then rev cached else cached) of
                       [] \<Rightarrow> NullPointer
                     | c # cs \<Rightarrow>
                         if last thepath = c
                         then stitch aca capability clearance (thepath @ cs) (v # rest)
                         else Exited))))"
| "stitch aca capability clearance thepath tmp = Returned (Some thepath)"

text \<open>
  \<^verbatim>\<open>path* AnnotatedHierarchicalAStar::getPath(graphAbstraction* aMap, node* from, node* to)\<close>,
  with the state of the abstraction it leaves; \<open>reconstruct\<close> is its part after
  the test \<^verbatim>\<open>if(!abspath) return NULL\<close>, from the first cached path to the removal
  of the endpoints and the return. The abstract search
  \<^verbatim>\<open>getAbstractPath\<close> is declared outside these sources and is a parameter: from
  the state and the abstract start and goal, the abstract path as the list of the
  numbers of its nodes, or \<open>None\<close>. The capability and the clearance of the query are
  those of the search object.
\<close>

definition reconstruct ::
  "AnnotatedClusterAbstraction \<Rightarrow> int \<Rightarrow> int \<Rightarrow> path \<Rightarrow> outcome \<times> AnnotatedClusterAbstraction" where
  "reconstruct aca1 capability clearance abspath =
     (case abspath of
        u # v # rest \<Rightarrow>
          (case findAnnotatedEdge (absEdges aca1) u v capability clearance MAXINT of
             None \<Rightarrow> (NullPointer, aca1)
           | Some ie \<Rightarrow>
               (case getPathFromCache aca1 (fst ie) of
                  None \<Rightarrow> (NullPointer, aca1)
                | Some thepath \<Rightarrow>
                    (case stitch aca1 capability clearance thepath (v # rest) of
                       Returned p \<Rightarrow> (Returned p, removeStartAndGoalNodesFromAbstractGraph aca1)
                     | stopped \<Rightarrow> (stopped, aca1))))
      | _ \<Rightarrow> (NullPointer, aca1))"

definition getPath ::
  "(AnnotatedClusterAbstraction \<Rightarrow> node option \<Rightarrow> node option \<Rightarrow> path option) \<Rightarrow>
   annotatedAStar \<Rightarrow> (path \<Rightarrow> real) \<Rightarrow> searchAlgorithm \<Rightarrow> AnnotatedClusterAbstraction \<Rightarrow>
   nat option \<Rightarrow> nat option \<Rightarrow> outcome \<times> AnnotatedClusterAbstraction" where
  "getPath getAbstractPath aastar distance this aca from to =
     (case insertStartAndGoalNodesIntoAbstractGraph aastar distance
             (getCapability this) (getClearance this) aca from to of
        Inl err \<Rightarrow> (Threw err, aca)
      | Inr aca1 \<Rightarrow>
          (case from of
             None \<Rightarrow> (NullPointer, aca1)
           | Some f \<Rightarrow>
               (case to of
                  None \<Rightarrow> (NullPointer, aca1)
                | Some t \<Rightarrow>
                    (let absstart = getNode (absNodes aca1) (kParent (groundNodes aca1 f));
                         absgoal = getNode (absNodes aca1) (kParent (groundNodes aca1 t));
                         abspath = getAbstractPath aca1 absstart absgoal
                     in if abspath = None then (Returned None, aca1)
                        else
                          (let capability = getCapability this;
                               clearance = getClearance this
                           in reconstruct aca1 capability clearance (the abspath))))))"

subsection \<open>An example abstraction and query\<close>

text \<open>
  Ground nodes of terrain 1 and clearance 2, the nodes 0 and 1 in the cluster 0 and
  every other node in the cluster 1. The ground node 1 has the abstract node 0, the
  only node of the abstract graph, which has no edge. The stand-in for the annotated
  A* search finds the two-node path between any two ground nodes, of weight 1. The
  stand-in for the abstract search follows admissible abstract edges from the start,
  at most as many as its fuel, and finds the goal or nothing.
\<close>

definition exampleACA :: AnnotatedClusterAbstraction where
  "exampleACA =
     \<lparr>groundNodes =
        (\<lambda>k. (exampleGroundNode k)\<lparr>kParent := (if k = 1 then 0 else - 1),
                                    getParentCluster := (if k < 2 then 0 else 1)\<rparr>),
      absNodes = [(exampleGroundNode 0)\<lparr>kParent := 1, kAbstractionLevel := 1,
                                         getParentCluster := 0\<rparr>],
      absEdges = [],
      pathCache = Map.empty,
      startid = - 1,
      goalid = - 1,
      uniqueIDCounter = 0\<rparr>"

definition exampleAStar :: annotatedAStar where
  "exampleAStar aca from to capability clearance = Some [from, to]"

definition exampleDistance :: "path \<Rightarrow> real" where
  "exampleDistance p = 1"

fun followEdges ::
  "(nat \<times> edge) list \<Rightarrow> int \<Rightarrow> int \<Rightarrow> nat \<Rightarrow> nat \<Rightarrow> nat \<Rightarrow> path option" where
  "followEdges g capability clearance 0 u goal = (if u = goal then Some [u] else None)"
| "followEdges g capability clearance (Suc fuel) u goal =
     (if u = goal then Some [u]
      else
        (case List.map_filter
                (\<lambda>ie. if edgeClearance (snd ie) capability < clearance then None
                       else if getFrom (snd ie) = u
                         then followEdges g capability clearance fuel (getTo (snd ie)) goal
                       else if getTo (snd ie) = u
                         then followEdges g capability clearance fuel (getFrom (snd ie)) goal
                       else None) g of
           [] \<Rightarrow> None
         | p # _ \<Rightarrow> Some (u # p)))"

definition exampleAbstractSearch ::
  "AnnotatedClusterAbstraction \<Rightarrow> node option \<Rightarrow> node option \<Rightarrow> path option" where
  "exampleAbstractSearch aca absstart absgoal =
     (case absstart of
        None \<Rightarrow> None
      | Some a \<Rightarrow>
          (case absgoal of
             None \<Rightarrow> None
           | Some b \<Rightarrow>
               followEdges (absEdges aca) 1 1 (length (absNodes aca)) (getNum a) (getNum b)))"

definition exampleInserted :: AnnotatedClusterAbstraction where
  "exampleInserted =
     insertEndpoint exampleAStar exampleDistance 1 1 False 2
       (insertEndpoint exampleAStar exampleDistance 1 1 True 0 exampleACA)"

definition exampleQuery :: searchAlgorithm where
  "exampleQuery = \<lparr>traversing = None, getCapability = 1, getClearance = 1\<rparr>"

section \<open>Properties of annotateMap\<close>

declare annotateInterior.simps [simp del] annotateBorder.simps [simp del]
  annotateColumn.simps [simp del] annotateColumns.simps [simp del]

lemma annotateInterior_terrain:
  "getTerrainType (annotateInterior vt a1 a2 a3 i n) = getTerrainType n"
  by (induction vt a1 a2 a3 i n rule: annotateInterior.induct)
     (subst annotateInterior.simps, simp add: setClearance_def Let_def)

lemma annotateBorder_terrain:
  "getTerrainType (annotateBorder vt i n) = getTerrainType n"
  by (induction vt i n rule: annotateBorder.induct)
     (subst annotateBorder.simps, simp add: setClearance_def)

lemma annotateInterior_clearance:
  "nodeClearance (annotateInterior vt a1 a2 a3 i n) s =
     (if \<exists>j. i \<le> j \<and> j < 3 \<and> vt j = s then
        (if (s AND getTerrainType n) = getTerrainType n
         then 1 + Min {nodeClearance a2 s, nodeClearance a3 s, nodeClearance a1 s}
         else 0)
      else nodeClearance n s)"
proof (induction vt a1 a2 a3 i n rule: annotateInterior.induct)
  case (1 vt a1 a2 a3 i n)
  show ?case
  proof (cases "i < 3")
    case False
    then show ?thesis by (subst annotateInterior.simps) auto
  next
    case True
    let ?n' = "(if (vt i AND getTerrainType n) = getTerrainType n then
             (let min0 = nodeClearance a1 (vt i);
                  min1 = (if nodeClearance a2 (vt i) < min0
                          then nodeClearance a2 (vt i) else min0);
                  min2 = (if nodeClearance a3 (vt i) < min1
                          then nodeClearance a3 (vt i) else min1)
              in setClearance n (vt i) (min2 + 1))
           else setClearance n (vt i) 0)"
    have t: "getTerrainType ?n' = getTerrainType n"
      by (simp add: setClearance_def Let_def)
    have c: "nodeClearance ?n' s =
        (if vt i = s then
           (if (s AND getTerrainType n) = getTerrainType n
            then 1 + Min {nodeClearance a2 s, nodeClearance a3 s, nodeClearance a1 s}
            else 0)
         else nodeClearance n s)"
      by (auto simp: setClearance_def Let_def min_def)
    have step: "annotateInterior vt a1 a2 a3 i n = annotateInterior vt a1 a2 a3 (i + 1) ?n'"
      using True by (subst annotateInterior.simps) simp
    have ex: "(\<exists>j. i \<le> j \<and> j < 3 \<and> vt j = s) = (vt i = s \<or> (\<exists>j. i + 1 \<le> j \<and> j < 3 \<and> vt j = s))"
      using True by (metis Suc_eq_plus1 Suc_leI le_eq_less_or_eq less_eq_Suc_le order_refl)
    show ?thesis
      unfolding step "1.IH"[OF True] t c ex by auto
  qed
qed

lemma annotateBorder_clearance:
  "nodeClearance (annotateBorder vt i n) s =
     (if \<exists>j. i \<le> j \<and> j < 3 \<and> vt j = s then
        (if (s AND getTerrainType n) = getTerrainType n then 1 else 0)
      else nodeClearance n s)"
proof (induction vt i n rule: annotateBorder.induct)
  case (1 vt i n)
  show ?case
  proof (cases "i < 3")
    case False
    then show ?thesis by (subst annotateBorder.simps) auto
  next
    case True
    let ?n' = "(if (vt i AND getTerrainType n) = getTerrainType n
           then setClearance n (vt i) 1
           else setClearance n (vt i) 0)"
    have t: "getTerrainType ?n' = getTerrainType n"
      by (simp add: setClearance_def)
    have c: "nodeClearance ?n' s =
        (if vt i = s then (if (s AND getTerrainType n) = getTerrainType n then 1 else 0)
         else nodeClearance n s)"
      by (auto simp: setClearance_def)
    have step: "annotateBorder vt i n = annotateBorder vt (i + 1) ?n'"
      using True by (subst annotateBorder.simps) simp
    have ex: "(\<exists>j. i \<le> j \<and> j < 3 \<and> vt j = s) = (vt i = s \<or> (\<exists>j. i + 1 \<le> j \<and> j < 3 \<and> vt j = s))"
      using True by (metis Suc_eq_plus1 Suc_leI le_eq_less_or_eq less_eq_Suc_le order_refl)
    show ?thesis
      unfolding step "1.IH"[OF True] t c ex by auto
  qed
qed


lemma annotateTile_fields [simp]:
  "getMapWidth (annotateTile this x y) = getMapWidth this"
  "getMapHeight (annotateTile this x y) = getMapHeight this"
  "mapTerrainType (annotateTile this x y) = mapTerrainType this"
  "validterrains (annotateTile this x y) = validterrains this"
  "graphEdges (annotateTile this x y) = graphEdges this"
  by (simp_all add: annotateTile_def Let_def split: option.splits)

lemma annotateTile_other:
  "x' \<noteq> x \<or> y' \<noteq> y \<Longrightarrow>
   getNodeFromMap (annotateTile this x y) x' y' = getNodeFromMap this x' y'"
  by (auto simp: annotateTile_def getNodeFromMap_def Let_def split: option.splits)

lemma annotateTile_annotated: "annotated (annotateTile this x y) x y"
proof (cases "getNodeFromMap this x y")
  case None
  then have "annotateTile this x y = this" by (simp add: annotateTile_def)
  with None show ?thesis by (simp add: annotated_def)
next
  case (Some n0)
  then have inb: "0 \<le> x \<and> x < getMapWidth this \<and> 0 \<le> y \<and> y < getMapHeight this"
    by (auto simp: getNodeFromMap_def split: if_splits)
  have nb: "getNodeFromMap (annotateTile this x y) (x + 1) y = getNodeFromMap this (x + 1) y"
    "getNodeFromMap (annotateTile this x y) x (y + 1) = getNodeFromMap this x (y + 1)"
    "getNodeFromMap (annotateTile this x y) (x + 1) (y + 1) = getNodeFromMap this (x + 1) (y + 1)"
    by (simp_all add: annotateTile_other)
  show ?thesis
    unfolding annotated_def spec_clearance_def nb
    using Some inb
    by (auto simp: annotateTile_def getNodeFromMap_def Let_def setTerrainType_def
        annotateInterior_terrain annotateBorder_terrain
        annotateInterior_clearance annotateBorder_clearance
        split: option.splits)
qed

lemma annotated_annotateTile:
  assumes "annotated this x y"
    and "(x', y') \<noteq> (x, y)" "(x', y') \<noteq> (x + 1, y)" "(x', y') \<noteq> (x, y + 1)"
      "(x', y') \<noteq> (x + 1, y + 1)"
  shows "annotated (annotateTile this x' y') x y"
proof -
  have eqs: "getNodeFromMap (annotateTile this x' y') x y = getNodeFromMap this x y"
    "getNodeFromMap (annotateTile this x' y') (x + 1) y = getNodeFromMap this (x + 1) y"
    "getNodeFromMap (annotateTile this x' y') x (y + 1) = getNodeFromMap this x (y + 1)"
    "getNodeFromMap (annotateTile this x' y') (x + 1) (y + 1) = getNodeFromMap this (x + 1) (y + 1)"
    using assms(2-5) by (auto intro: annotateTile_other)
  show ?thesis
    using assms(1) unfolding annotated_def spec_clearance_def eqs annotateTile_fields .
qed

lemma annotatedAfter_annotateTile:
  assumes "annotatedAfter this x y"
  shows "annotatedAfter (annotateTile this x y) x (y - 1)"
  unfolding annotatedAfter_def
proof (intro allI impI)
  fix x' y'
  assume a: "x < x' \<or> (x' = x \<and> y - 1 < y')"
  show "annotated (annotateTile this x y) x' y'"
  proof (cases "(x', y') = (x, y)")
    case True
    then show ?thesis using annotateTile_annotated by simp
  next
    case False
    with a have b: "x < x' \<or> (x' = x \<and> y < y')" by auto
    then have "annotated this x' y'" using assms unfolding annotatedAfter_def by blast
    then show ?thesis
      using b by (intro annotated_annotateTile) auto
  qed
qed

lemma annotateColumn_fields [simp]:
  "getMapWidth (annotateColumn x y this) = getMapWidth this"
  "getMapHeight (annotateColumn x y this) = getMapHeight this"
  "mapTerrainType (annotateColumn x y this) = mapTerrainType this"
  "validterrains (annotateColumn x y this) = validterrains this"
  "graphEdges (annotateColumn x y this) = graphEdges this"
  by (induction x y this rule: annotateColumn.induct;
      subst annotateColumn.simps; simp)+

lemma annotatedAfter_annotateColumn:
  "annotatedAfter this x y \<Longrightarrow> - 1 \<le> y \<Longrightarrow> annotatedAfter (annotateColumn x y this) x (- 1)"
proof (induction x y this rule: annotateColumn.induct)
  case (1 x y this)
  show ?case
  proof (cases "y \<ge> 0")
    case True
    have "annotatedAfter (annotateColumn x (y - 1) (annotateTile this x y)) x (- 1)"
      using True "1.prems" by (intro "1.IH" annotatedAfter_annotateTile) auto
    then show ?thesis using True by (subst annotateColumn.simps) simp
  next
    case False
    with "1.prems" have "y = - 1" by simp
    with "1.prems" show ?thesis by (subst annotateColumn.simps) simp
  qed
qed

lemma annotated_outside:
  "\<not> (0 \<le> x \<and> x < getMapWidth this \<and> 0 \<le> y \<and> y < getMapHeight this) \<Longrightarrow> annotated this x y"
  by (auto simp: annotated_def getNodeFromMap_def)

lemma annotatedAfter_next_column:
  assumes "annotatedAfter this x (- 1)"
  shows "annotatedAfter this (x - 1) (getMapHeight this - 1)"
  unfolding annotatedAfter_def
proof (intro allI impI)
  fix x' y'
  assume a: "x - 1 < x' \<or> (x' = x - 1 \<and> getMapHeight this - 1 < y')"
  show "annotated this x' y'"
  proof (cases "0 \<le> y' \<and> y' < getMapHeight this")
    case True
    with a have "x < x' \<or> (x' = x \<and> - 1 < y')" by auto
    then show ?thesis using assms unfolding annotatedAfter_def by blast
  next
    case False
    then show ?thesis by (intro annotated_outside) auto
  qed
qed

lemma annotateColumns_fields [simp]:
  "getMapWidth (annotateColumns x this) = getMapWidth this"
  "getMapHeight (annotateColumns x this) = getMapHeight this"
  "mapTerrainType (annotateColumns x this) = mapTerrainType this"
  "validterrains (annotateColumns x this) = validterrains this"
  "graphEdges (annotateColumns x this) = graphEdges this"
  by (induction x this rule: annotateColumns.induct;
      subst annotateColumns.simps; simp)+

lemma annotatedAfter_annotateColumns:
  "annotatedAfter this x (getMapHeight this - 1) \<Longrightarrow> - 1 \<le> x \<Longrightarrow>
   annotatedAfter (annotateColumns x this) (- 1) (getMapHeight this - 1)"
proof (induction x this rule: annotateColumns.induct)
  case (1 x this)
  show ?case
  proof (cases "x \<ge> 0")
    case True
    let ?c = "annotateColumn x (getMapHeight this - 1) this"
    have h: "- 1 \<le> getMapHeight this - 1 \<or> getMapHeight this - 1 < - 1" by auto
    have col: "annotatedAfter ?c x (- 1)"
    proof (cases "- 1 \<le> getMapHeight this - 1")
      case True
      then show ?thesis using "1.prems"(1) by (intro annotatedAfter_annotateColumn)
    next
      case False
      then have "?c = this" by (subst annotateColumn.simps) simp
      moreover have "annotatedAfter this x (- 1)"
        unfolding annotatedAfter_def
      proof (intro allI impI)
        fix x' y' :: int
        assume "x < x' \<or> (x' = x \<and> - 1 < y')"
        show "annotated this x' y'" using False by (intro annotated_outside) auto
      qed
      ultimately show ?thesis by simp
    qed
    have "annotatedAfter ?c (x - 1) (getMapHeight ?c - 1)"
      using col by (rule annotatedAfter_next_column)
    then have "annotatedAfter (annotateColumns (x - 1) ?c) (- 1) (getMapHeight ?c - 1)"
      using True by (intro "1.IH") auto
    then show ?thesis using True by (subst annotateColumns.simps) simp
  next
    case False
    with "1.prems" have "x = - 1" by simp
    with "1.prems" show ?thesis by (subst annotateColumns.simps) simp
  qed
qed

lemma annotateMap_annotated: "annotated (annotateMap this) x y"
proof (cases "0 \<le> x")
  case True
  have "annotatedAfter this (getMapWidth this - 1) (getMapHeight this - 1)"
    unfolding annotatedAfter_def
    by (intro allI impI annotated_outside) auto
  moreover have "annotateMap this = this \<or> - 1 \<le> getMapWidth this - 1"
    unfolding annotateMap_def by (subst annotateColumns.simps) auto
  ultimately have "annotatedAfter (annotateMap this) (- 1) (getMapHeight this - 1)
      \<or> annotateMap this = this \<and> getMapWidth this \<le> 0"
    unfolding annotateMap_def
    using annotatedAfter_annotateColumns[of this "getMapWidth this - 1"]
    by (subst (asm) annotateColumns.simps, subst annotateColumns.simps) (auto split: if_splits)
  then show ?thesis
  proof
    assume "annotatedAfter (annotateMap this) (- 1) (getMapHeight this - 1)"
    then show ?thesis using True by (simp add: annotatedAfter_def)
  next
    assume "annotateMap this = this \<and> getMapWidth this \<le> 0"
    then show ?thesis using True by (auto intro: annotated_outside)
  qed
next
  case False
  then show ?thesis by (intro annotated_outside) auto
qed

lemma annotateTile_exists:
  "(getNodeFromMap (annotateTile this x y) x' y' = None) = (getNodeFromMap this x' y' = None)"
  by (auto simp: annotateTile_def getNodeFromMap_def Let_def split: option.splits)

lemma annotateColumn_exists:
  "(getNodeFromMap (annotateColumn x y this) x' y' = None) = (getNodeFromMap this x' y' = None)"
  by (induction x y this rule: annotateColumn.induct)
     (subst annotateColumn.simps, simp add: annotateTile_exists)

lemma annotateColumns_exists:
  "(getNodeFromMap (annotateColumns x this) x' y' = None) = (getNodeFromMap this x' y' = None)"
  by (induction x this rule: annotateColumns.induct)
     (subst annotateColumns.simps, simp add: annotateColumn_exists)

lemma annotateMap_exists:
  "(getNodeFromMap (annotateMap this) x y = None) = (getNodeFromMap this x y = None)"
  by (simp add: annotateMap_def annotateColumns_exists)

lemma annotateMap_fields [simp]:
  "getMapWidth (annotateMap this) = getMapWidth this"
  "getMapHeight (annotateMap this) = getMapHeight this"
  "mapTerrainType (annotateMap this) = mapTerrainType this"
  "validterrains (annotateMap this) = validterrains this"
  "graphEdges (annotateMap this) = graphEdges this"
  by (simp_all add: annotateMap_def)


lemmas exampleMap_eval =
  annotateMap_def exampleMap_def annotateColumns.simps annotateColumn.simps
  annotateTile_def getNodeFromMap_def exampleNode_def annotateInterior.simps annotateBorder.simps
  setClearance_def setTerrainType_def constructor_validterrains_def Let_def


section \<open>Properties of addMissingEdges\<close>

declare addMissingEdgesColumn.simps [simp del] addMissingEdgesColumns.simps [simp del]

text \<open>
  C4 does not hold of \<^verbatim>\<open>addMissingEdges\<close>. The method looks at the neighbours
  \<open>(x-1, y)\<close>, \<open>(x, y-1)\<close> and \<open>(x-1, y-1)\<close> of each tile only, and gives every edge
  it adds the weight 1.0. On the example map the nodes 1 at \<open>(1, 0)\<close> and 2 at
  \<open>(0, 1)\<close> are diagonal neighbours and have no edge, in either direction, when the
  method returns; the nodes 0 at \<open>(0, 0)\<close> and 3 at \<open>(1, 1)\<close> are diagonal neighbours
  and their edge has the weight 1, which is not the square root of 2.
\<close>

theorem addMissingEdges_example:
  "map_option getNum (getNodeFromMap (addMissingEdges exampleMap) 1 0) = Some 1
   \<and> map_option getNum (getNodeFromMap (addMissingEdges exampleMap) 0 1) = Some 2
   \<and> findEdge (graphEdges (addMissingEdges exampleMap)) 1 2 = None
   \<and> findEdge (graphEdges (addMissingEdges exampleMap)) 2 1 = None
   \<and> map_option getNum (getNodeFromMap (addMissingEdges exampleMap) 0 0) = Some 0
   \<and> map_option getNum (getNodeFromMap (addMissingEdges exampleMap) 1 1) = Some 3
   \<and> map_option getWeight (findEdge (graphEdges (addMissingEdges exampleMap)) 0 3) = Some 1
   \<and> (1::real) \<noteq> sqrt 2"
  by (simp add: addMissingEdges_def exampleMap_def addMissingEdgesColumns.simps
      addMissingEdgesColumn.simps addMissingEdgesTile_def getNodeFromMap_def exampleNode_def
      findEdge_def addEdge_def new_edge_def Let_def)

section \<open>Properties of evaluate\<close>

text \<open>
  C9. \<^verbatim>\<open>evaluate(n, target)\<close> is false when \<open>n\<close> or \<open>target\<close> is null, when no
  edge is being traversed, and when \<open>n\<close> or \<open>target\<close> is not an endpoint of the
  traversed edge; in every other case it is true exactly when the clearance of the
  traversed edge for the capability of the search is at least the clearance the search
  requires.
\<close>

theorem evaluate_spec:
  "(n = None \<or> target = None \<longrightarrow> \<not> evaluate this n target)
   \<and> (traversing this = None \<longrightarrow> \<not> evaluate this n target)
   \<and> (\<forall>n' target' e.
        n = Some n' \<and> target = Some target' \<and> traversing this = Some e \<longrightarrow>
          ((getNum n' \<notin> {getFrom e, getTo e} \<or> getNum target' \<notin> {getFrom e, getTo e})
             \<longrightarrow> \<not> evaluate this n target)
          \<and> (getNum n' \<in> {getFrom e, getTo e} \<and> getNum target' \<in> {getFrom e, getTo e}
             \<longrightarrow> evaluate this n target
                 = (getClearance this \<le> edgeClearance e (getCapability this))))"
  by (auto simp: evaluate_def Let_def split: option.splits)

text \<open>
  The example search accepts the two endpoints of its edge, whose clearance 2 is the
  clearance asked for; it rejects a null node, a node off the edge, and every node when
  it is traversing no edge.
\<close>

theorem evaluate_spec_witness:
  "evaluate exampleSearch (Some (exampleNode 0)) (Some (exampleNode 1))
   \<and> \<not> evaluate exampleSearch None (Some (exampleNode 1))
   \<and> \<not> evaluate exampleSearch (Some (exampleNode 0)) (Some (exampleNode 2))
   \<and> \<not> evaluate (exampleSearch\<lparr>traversing := None\<rparr>) (Some (exampleNode 0)) (Some (exampleNode 1))"
proof -
  let ?e = "(new_edge 0 1 1.0)\<lparr>edgeClearance := (\<lambda>_. 0)(1 := 2)\<rparr>"
  have t: "traversing exampleSearch = Some ?e"
    by (simp add: exampleSearch_def)
  have ends: "getFrom ?e = 0" "getTo ?e = 1"
    by (simp_all add: new_edge_def)
  have cl: "getClearance exampleSearch \<le> edgeClearance ?e (getCapability exampleSearch)"
    by (simp add: exampleSearch_def)
  have nums: "getNum (exampleNode 0) = 0" "getNum (exampleNode 1) = 1" "getNum (exampleNode 2) = 2"
    by (simp_all add: exampleNode_def)
  have "evaluate exampleSearch (Some (exampleNode 0)) (Some (exampleNode 1))"
    using evaluate_spec[of "Some (exampleNode 0)" "Some (exampleNode 1)" exampleSearch]
      t ends cl nums by simp
  moreover have "\<not> evaluate exampleSearch None (Some (exampleNode 1))"
    using evaluate_spec[of None "Some (exampleNode 1)" exampleSearch] by simp
  moreover have "\<not> evaluate exampleSearch (Some (exampleNode 0)) (Some (exampleNode 2))"
    using evaluate_spec[of "Some (exampleNode 0)" "Some (exampleNode 2)" exampleSearch]
      t ends nums by simp
  moreover have "\<not> evaluate (exampleSearch\<lparr>traversing := None\<rparr>)
      (Some (exampleNode 0)) (Some (exampleNode 1))"
    using evaluate_spec[of "Some (exampleNode 0)" "Some (exampleNode 1)"
        "exampleSearch\<lparr>traversing := None\<rparr>"] by simp
  ultimately show ?thesis by blast
qed

section \<open>Properties of pathable\<close>

text \<open>
  C10. \<^verbatim>\<open>pathable(from, to, terrain, agentsize)\<close> returns false and runs no search
  (whatever the search is, the world is left as it was) when the terrain type of
  \<open>from\<close> or of \<open>to\<close> does not include \<open>terrain\<close>, or the clearance of \<open>from\<close> or of
  \<open>to\<close> for its own terrain type is below \<open>agentsize\<close>; in every other case it runs
  the search once and returns true exactly when the search finds a path.
\<close>

theorem pathable_spec:
  "((getTerrainType from AND terrain) \<noteq> terrain \<or> (getTerrainType to AND terrain) \<noteq> terrain
      \<or> nodeClearance from (getTerrainType from) < agentsize
      \<or> nodeClearance to (getTerrainType to) < agentsize
     \<longrightarrow> (\<forall>search. pathable search w from to terrain agentsize = (False, w)))
   \<and> (\<not> ((getTerrainType from AND terrain) \<noteq> terrain \<or> (getTerrainType to AND terrain) \<noteq> terrain
          \<or> nodeClearance from (getTerrainType from) < agentsize
          \<or> nodeClearance to (getTerrainType to) < agentsize)
     \<longrightarrow> fst (pathable aastar_getPath w from to terrain agentsize)
           = (fst (aastar_getPath w from to terrain agentsize) \<noteq> None)
         \<and> snd (pathable aastar_getPath w from to terrain agentsize)
           = snd (aastar_getPath w from to terrain agentsize))"
  by (auto simp: pathable_def split: prod.splits option.splits)

text \<open>
  Between two ground nodes of clearance 2, an agent of size 3 is refused with no call
  of the search, and an agent of size 1 is answered by one call of the search.
\<close>

theorem pathable_spec_witness:
  "pathable countingSearch 0 (exampleGroundNode 0) (exampleGroundNode 1) 1 3 = (False, 0)
   \<and> pathable countingSearch 0 (exampleGroundNode 0) (exampleGroundNode 1) 1 1 = (True, 1)"
proof -
  have g: "getTerrainType (exampleGroundNode 0) = 1" "getTerrainType (exampleGroundNode 1) = 1"
    "nodeClearance (exampleGroundNode 0) 1 = 2" "nodeClearance (exampleGroundNode 1) 1 = 2"
    by (simp_all add: exampleGroundNode_def)
  have s: "countingSearch 0 (exampleGroundNode 0) (exampleGroundNode 1) 1 1
      = (Some [getNum (exampleGroundNode 0), getNum (exampleGroundNode 1)], 1)"
    by (simp add: countingSearch_def)
  have "pathable countingSearch 0 (exampleGroundNode 0) (exampleGroundNode 1) 1 3 = (False, 0)"
    using pathable_spec[of "exampleGroundNode 0" 1 "exampleGroundNode 1" 3 "0::nat"] g
    by auto
  moreover have "pathable countingSearch 0 (exampleGroundNode 0) (exampleGroundNode 1) 1 1 = (True, 1)"
    using pathable_spec[of "exampleGroundNode 0" 1 "exampleGroundNode 1" 1 "0::nat"
        countingSearch] g s
    by (simp add: prod_eq_iff)
  ultimately show ?thesis by simp
qed

section \<open>Properties of the cluster decomposition\<close>

lemma ceiling_as_div:
  assumes "0 < (S::int)"
  shows "(W + S - 1) div S = \<lceil>real_of_int W / real_of_int S\<rceil>"
proof -
  define q where "q = W div S"
  define r where "r = W mod S"
  have W: "W = S * q + r" and r: "0 \<le> r" "r < S"
    using assms by (simp_all add: q_def r_def)
  have neg: "(- W) div S = (if r = 0 then - q else - q - 1)"
    using assms by (simp add: zdiv_zminus1_eq_if q_def r_def)
  have pos: "(W + S - 1) div S = (if r = 0 then q else q + 1)"
  proof (cases "r = 0")
    case True
    have "(W + S - 1) div S = q"
      by (rule int_div_pos_eq[of _ _ _ "S - 1"]) (use True W assms in \<open>simp_all\<close>)
    with True show ?thesis by simp
  next
    case False
    have "(W + S - 1) div S = q + 1"
      by (rule int_div_pos_eq[of _ _ _ "r - 1"]) (use False W r assms in \<open>simp_all add: algebra_simps\<close>)
    with False show ?thesis by simp
  qed
  show ?thesis
    unfolding ceiling_divide_eq_div pos neg by simp
qed

lemma clustersAcross_ceiling:
  assumes "0 < S" and "0 \<le> W"
  shows "clustersAcross W S = nat \<lceil>real_of_int W / real_of_int S\<rceil>"
  using assms by (simp add: clustersAcross_def ceiling_as_div)

lemma clustersAcross_inside:
  assumes "0 < S" and "i < clustersAcross W S"
  shows "int i * S < W"
proof -
  have "int i + 1 \<le> (W + S - 1) div S"
    using assms(2) by (simp add: clustersAcross_def)
  then have "(int i + 1) * S \<le> ((W + S - 1) div S) * S"
    using assms(1) by (simp add: mult_right_mono)
  also have "\<dots> \<le> W + S - 1"
    using pos_mod_sign[OF assms(1), of "W + S - 1"] div_mult_mod_eq[of "W + S - 1" S]
    by linarith
  finally show ?thesis by (simp add: algebra_simps)
qed

lemma buildClusters_length:
  "0 < S \<Longrightarrow> length (buildClusters W H S) = clustersAcross W S * clustersAcross H S"
  by (simp add: buildClusters_def)

lemma buildClusters_nth:
  assumes "0 < S" and "i < clustersAcross W S" and "j < clustersAcross H S"
  shows "buildClusters W H S ! (j * clustersAcross W S + i) =
           \<lparr>getClusterId = j * clustersAcross W S + i,
            getHOrigin = int i * S, getVOrigin = int j * S,
            getWidth = min S (W - int i * S), getHeight = min S (H - int j * S)\<rparr>"
proof -
  have "j * clustersAcross W S + i < clustersAcross W S * clustersAcross H S"
  proof -
    have "j * clustersAcross W S + i < j * clustersAcross W S + clustersAcross W S"
      using assms(2) by simp
    also have "\<dots> = (j + 1) * clustersAcross W S" by simp
    also have "\<dots> \<le> clustersAcross H S * clustersAcross W S"
      using assms(3) by (intro mult_le_mono1) simp
    finally show ?thesis by (simp add: mult.commute)
  qed
  then show ?thesis
    using assms by (simp add: buildClusters_def Let_def)
qed

text \<open>
  C6. On a grid of 10 columns and 6 rows, the size the specification gives for the map
  \<^verbatim>\<open>acmap\<close>, the decomposition into clusters of size 5 has exactly four clusters,
  of the widths 5, 5, 5, 5 and the heights 5, 5, 1, 1. In general, for a cluster size
  \<open>S > 0\<close> the decomposition of a grid of \<open>W\<close> columns and \<open>H\<close> rows has
  \<open>\<lceil>W/S\<rceil> \<sqdot> \<lceil>H/S\<rceil>\<close> clusters, and the cluster \<open>(i, j)\<close>, at the place
  \<open>j \<sqdot> \<lceil>W/S\<rceil> + i\<close> of the row-major order, has the origin \<open>(i\<sqdot>S, j\<sqdot>S)\<close>, the
  width \<open>min(S, W - i\<sqdot>S)\<close> and the height \<open>min(S, H - j\<sqdot>S)\<close>, both positive.

  The test \<^verbatim>\<open>buildClustersShouldCalculateCorrectClusterSize\<close> of the sources lists
  the widths 5, 4, 5, 4 for \<^verbatim>\<open>acmap\<close>. It builds no clusters before its loop over
  them, and neither \<^verbatim>\<open>buildClusters\<close> nor the map file is among the sources, so
  those widths cannot be traced to code; the sizes proved here are those of the grid the
  specification states.
\<close>

theorem buildClusters_acmap:
  "length (buildClusters 10 6 5) = 4
   \<and> map getWidth (buildClusters 10 6 5) = [5, 5, 5, 5]
   \<and> map getHeight (buildClusters 10 6 5) = [5, 5, 1, 1]
   \<and> (0 < S \<and> 0 \<le> W \<and> 0 \<le> H \<longrightarrow>
        length (buildClusters W H S)
          = nat \<lceil>real_of_int W / real_of_int S\<rceil> * nat \<lceil>real_of_int H / real_of_int S\<rceil>
        \<and> (\<forall>i j. i < nat \<lceil>real_of_int W / real_of_int S\<rceil>
                  \<and> j < nat \<lceil>real_of_int H / real_of_int S\<rceil> \<longrightarrow>
              buildClusters W H S ! (j * nat \<lceil>real_of_int W / real_of_int S\<rceil> + i) =
                \<lparr>getClusterId = j * nat \<lceil>real_of_int W / real_of_int S\<rceil> + i,
                 getHOrigin = int i * S, getVOrigin = int j * S,
                 getWidth = min S (W - int i * S), getHeight = min S (H - int j * S)\<rparr>
              \<and> 0 < min S (W - int i * S) \<and> 0 < min S (H - int j * S)))"
proof (intro conjI impI)
  have upt4: "[0..<4] = [0, 1, 2, 3]"
    by (simp add: upt_rec)
  show "length (buildClusters 10 6 5) = 4"
    "map getWidth (buildClusters 10 6 5) = [5, 5, 5, 5]"
    "map getHeight (buildClusters 10 6 5) = [5, 5, 1, 1]"
    by (simp_all add: buildClusters_def clustersAcross_def upt4 Let_def)
next
  assume a: "0 < S \<and> 0 \<le> W \<and> 0 \<le> H"
  then have c: "clustersAcross W S = nat \<lceil>real_of_int W / real_of_int S\<rceil>"
    "clustersAcross H S = nat \<lceil>real_of_int H / real_of_int S\<rceil>"
    by (simp_all add: clustersAcross_ceiling)
  show "length (buildClusters W H S)
          = nat \<lceil>real_of_int W / real_of_int S\<rceil> * nat \<lceil>real_of_int H / real_of_int S\<rceil>"
    using a by (simp add: buildClusters_length c)
  show "\<forall>i j. i < nat \<lceil>real_of_int W / real_of_int S\<rceil>
                  \<and> j < nat \<lceil>real_of_int H / real_of_int S\<rceil> \<longrightarrow>
              buildClusters W H S ! (j * nat \<lceil>real_of_int W / real_of_int S\<rceil> + i) =
                \<lparr>getClusterId = j * nat \<lceil>real_of_int W / real_of_int S\<rceil> + i,
                 getHOrigin = int i * S, getVOrigin = int j * S,
                 getWidth = min S (W - int i * S), getHeight = min S (H - int j * S)\<rparr>
              \<and> 0 < min S (W - int i * S) \<and> 0 < min S (H - int j * S)"
  proof (intro allI impI)
    fix i j
    assume ij: "i < nat \<lceil>real_of_int W / real_of_int S\<rceil>
                  \<and> j < nat \<lceil>real_of_int H / real_of_int S\<rceil>"
    then have i: "i < clustersAcross W S" and j: "j < clustersAcross H S"
      by (simp_all add: c)
    have "int i * S < W" "int j * S < H"
      using a i j by (simp_all add: clustersAcross_inside)
    then show "buildClusters W H S ! (j * nat \<lceil>real_of_int W / real_of_int S\<rceil> + i) =
                \<lparr>getClusterId = j * nat \<lceil>real_of_int W / real_of_int S\<rceil> + i,
                 getHOrigin = int i * S, getVOrigin = int j * S,
                 getWidth = min S (W - int i * S), getHeight = min S (H - int j * S)\<rparr>
              \<and> 0 < min S (W - int i * S) \<and> 0 < min S (H - int j * S)"
      using a buildClusters_nth[of S i W j H] i j by (simp add: c)
  qed
qed

text \<open>
  At the grid of 10 columns and 6 rows and the cluster size 5 the general part gives
  two clusters across and two down, and the cluster \<open>(1, 1)\<close>, the last of the four, at
  the origin \<open>(5, 5)\<close> with the width 5 and the height 1.
\<close>

theorem buildClusters_acmap_witness:
  "(0::int) < 5 \<and> (0::int) \<le> 10 \<and> (0::int) \<le> 6
   \<and> nat \<lceil>real_of_int 10 / real_of_int 5\<rceil> = 2 \<and> nat \<lceil>real_of_int 6 / real_of_int 5\<rceil> = 2
   \<and> length (buildClusters 10 6 5) = 2 * 2
   \<and> buildClusters 10 6 5 ! 3 =
        \<lparr>getClusterId = 3, getHOrigin = 5, getVOrigin = 5, getWidth = 5, getHeight = 1\<rparr>"
proof -
  have n: "nat \<lceil>real_of_int 10 / real_of_int 5\<rceil> = 2" "nat \<lceil>real_of_int 6 / real_of_int 5\<rceil> = 2"
    by simp_all
  have h: "(0::int) < 5 \<and> (0::int) \<le> 10 \<and> (0::int) \<le> 6" by simp
  have g: "length (buildClusters 10 6 5)
          = nat \<lceil>real_of_int 10 / real_of_int 5\<rceil> * nat \<lceil>real_of_int 6 / real_of_int 5\<rceil>
        \<and> (\<forall>i j. i < nat \<lceil>real_of_int 10 / real_of_int 5\<rceil>
                  \<and> j < nat \<lceil>real_of_int 6 / real_of_int 5\<rceil> \<longrightarrow>
              buildClusters 10 6 5 ! (j * nat \<lceil>real_of_int 10 / real_of_int 5\<rceil> + i) =
                \<lparr>getClusterId = j * nat \<lceil>real_of_int 10 / real_of_int 5\<rceil> + i,
                 getHOrigin = int i * 5, getVOrigin = int j * 5,
                 getWidth = min 5 (10 - int i * 5), getHeight = min 5 (6 - int j * 5)\<rparr>
              \<and> 0 < min 5 (10 - int i * 5) \<and> 0 < min (5::int) (6 - int j * 5))"
    using buildClusters_acmap[of 5 10 6] h by blast
  have len: "length (buildClusters 10 6 5) = 2 * 2"
    using g unfolding n by blast
  have "buildClusters 10 6 5 ! (1 * 2 + 1) =
                \<lparr>getClusterId = 1 * 2 + 1,
                 getHOrigin = int 1 * 5, getVOrigin = int 1 * 5,
                 getWidth = min 5 (10 - int 1 * 5), getHeight = min 5 (6 - int 1 * 5)\<rparr>"
    using g unfolding n by (metis one_less_numeral_iff semiring_norm(76))
  then have c3: "buildClusters 10 6 5 ! 3 =
        \<lparr>getClusterId = 3, getHOrigin = 5, getVOrigin = 5, getWidth = 5, getHeight = 1\<rparr>"
    by simp
  show ?thesis using h n len c3 by simp
qed

section \<open>Properties of the insertion and the removal of endpoints\<close>

lemma addAbstractEdge_fields [simp]:
  "absNodes (addAbstractEdge this f t w c k p) = absNodes this"
  "groundNodes (addAbstractEdge this f t w c k p) = groundNodes this"
  "startid (addAbstractEdge this f t w c k p) = startid this"
  "goalid (addAbstractEdge this f t w c k p) = goalid this"
  "uniqueIDCounter (addAbstractEdge this f t w c k p) = Suc (uniqueIDCounter this)"
  "absEdges (addAbstractEdge this f t w c k p)
     = absEdges this @ [(uniqueIDCounter this,
         (new_edge f t w)\<lparr>edgeClearance := (\<lambda>_. 0)(c := k)\<rparr>)]"
  "pathCache (addAbstractEdge this f t w c k p) = (pathCache this)(uniqueIDCounter this \<mapsto> p)"
  by (simp_all add: addAbstractEdge_def addPathToCache_def Let_def)

lemma connectNewNode_fields [simp]:
  "absNodes (connectNewNode aastar d c k P p qs this) = absNodes this"
  "groundNodes (connectNewNode aastar d c k P p qs this) = groundNodes this"
  "startid (connectNewNode aastar d c k P p qs this) = startid this"
  "goalid (connectNewNode aastar d c k P p qs this) = goalid this"
  by (induction qs arbitrary: this; simp split: option.splits)+

lemma connectNewNode_edges:
  "\<exists>es. absEdges (connectNewNode aastar d c k P p qs this) = absEdges this @ es
        \<and> (\<forall>ie \<in> set es. getFrom (snd ie) = getNum P
              \<and> uniqueIDCounter this \<le> fst ie
              \<and> fst ie < uniqueIDCounter (connectNewNode aastar d c k P p qs this))
        \<and> uniqueIDCounter this \<le> uniqueIDCounter (connectNewNode aastar d c k P p qs this)
        \<and> (\<forall>i. i \<notin> fst ` set es \<longrightarrow>
              pathCache (connectNewNode aastar d c k P p qs this) i = pathCache this i)"
proof (induction qs arbitrary: this)
  case Nil
  show ?case by simp
next
  case (Cons q qs)
  define nxt where "nxt = (if getParentCluster q = getParentCluster P then
          (case aastar this p (nat (kParent q)) c k of
             None \<Rightarrow> this
           | Some found \<Rightarrow>
               addAbstractEdge this (getNum P) (getNum q) (d found) c k found)
        else this)"
  define r where "r = connectNewNode aastar d c k P p (q # qs) this"
  have r: "r = connectNewNode aastar d c k P p qs nxt"
    by (simp add: r_def nxt_def)
  obtain es where es: "absEdges r = absEdges nxt @ es"
    "\<forall>ie \<in> set es. getFrom (snd ie) = getNum P \<and> uniqueIDCounter nxt \<le> fst ie
        \<and> fst ie < uniqueIDCounter r"
    "uniqueIDCounter nxt \<le> uniqueIDCounter r"
    "\<forall>i. i \<notin> fst ` set es \<longrightarrow> pathCache r i = pathCache nxt i"
    using Cons.IH[of nxt] unfolding r by blast
  have "nxt = this \<or> (\<exists>found. nxt
      = addAbstractEdge this (getNum P) (getNum q) (d found) c k found)"
    by (auto simp: nxt_def split: option.splits)
  then have "\<exists>es. absEdges r = absEdges this @ es
        \<and> (\<forall>ie \<in> set es. getFrom (snd ie) = getNum P
              \<and> uniqueIDCounter this \<le> fst ie \<and> fst ie < uniqueIDCounter r)
        \<and> uniqueIDCounter this \<le> uniqueIDCounter r
        \<and> (\<forall>i. i \<notin> fst ` set es \<longrightarrow> pathCache r i = pathCache this i)"
  proof
    assume n: "nxt = this"
    show ?thesis
      by (rule exI[of _ es]) (use es in \<open>simp add: n\<close>)
  next
    assume "\<exists>found. nxt = addAbstractEdge this (getNum P) (getNum q) (d found) c k found"
    then obtain found where n: "nxt = addAbstractEdge this (getNum P) (getNum q) (d found) c k found"
      by blast
    define e where "e = (uniqueIDCounter this,
         (new_edge (getNum P) (getNum q) (d found))\<lparr>edgeClearance := (\<lambda>_. 0)(c := k)\<rparr>)"
    have e: "fst e = uniqueIDCounter this" "getFrom (snd e) = getNum P"
      by (simp_all add: e_def new_edge_def)
    have a: "absEdges r = absEdges this @ (e # es)"
      using es(1) by (simp add: n e_def)
    have cnt: "uniqueIDCounter nxt = Suc (uniqueIDCounter this)"
      by (simp add: n)
    have b: "\<forall>ie \<in> set (e # es). getFrom (snd ie) = getNum P \<and> uniqueIDCounter this \<le> fst ie
        \<and> fst ie < uniqueIDCounter r"
      using es(2,3) e cnt by auto
    have c: "uniqueIDCounter this \<le> uniqueIDCounter r"
      using es(3) cnt by simp
    have d: "\<forall>i. i \<notin> fst ` set (e # es) \<longrightarrow> pathCache r i = pathCache this i"
      using es(4) e by (simp add: n)
    show ?thesis
      by (rule exI[of _ "e # es"]) (use a b c d in blast)
  qed
  then show ?case unfolding r_def .
qed

lemma fold_resetParentLabel:
  "fold resetParentLabel ns g k =
     (if k \<in> (\<lambda>n. nat (kParent n)) ` set ns then (g k)\<lparr>kParent := - 1\<rparr> else g k)"
  by (induction ns arbitrary: g) (auto simp: resetParentLabel_def)

lemma fold_dropPathFromCache:
  "fold dropPathFromCache ids cache k = (if k \<in> set ids then None else cache k)"
  by (induction ids arbitrary: cache) (auto simp: dropPathFromCache_def)

lemma insertedOver_refl: "wellFormed this \<Longrightarrow> insertedOver this [] [] this"
  by (simp add: insertedOver_def wellFormed_def)

lemma remove_insertedOver:
  assumes wf: "wellFormed before" and ins: "insertedOver before ns es this"
  shows "absNodes (removeStartAndGoalNodesFromAbstractGraph this) = absNodes before"
    and "absEdges (removeStartAndGoalNodesFromAbstractGraph this) = absEdges before"
    and "pathCache (removeStartAndGoalNodesFromAbstractGraph this) = pathCache before"
    and "groundNodes (removeStartAndGoalNodesFromAbstractGraph this) = groundNodes before"
    and "startid (removeStartAndGoalNodesFromAbstractGraph this) = - 1"
    and "goalid (removeStartAndGoalNodesFromAbstractGraph this) = - 1"
proof -
  have old_not_endpoint: "\<not> isEndpointNode this n" if "n \<in> set (absNodes before)" for n
  proof -
    have "getNum n < length (absNodes before)" using wf that by (simp add: wellFormed_def)
    moreover have "startid this = - 1 \<or> int (length (absNodes before)) \<le> startid this"
      "goalid this = - 1 \<or> int (length (absNodes before)) \<le> goalid this"
      using ins by (simp_all add: insertedOver_def)
    ultimately show ?thesis by (auto simp: isEndpointNode_def)
  qed
  have new_endpoint: "isEndpointNode this n" if "n \<in> set ns" for n
    using ins that by (simp add: insertedOver_def)
  have nodes: "absNodes this = absNodes before @ ns"
    using ins by (simp add: insertedOver_def)
  have deleted: "filter (isEndpointNode this) (absNodes this) = ns"
    unfolding nodes using old_not_endpoint new_endpoint by (simp add: filter_empty_conv)
  have kept: "filter (\<lambda>n. \<not> isEndpointNode this n) (absNodes this) = absNodes before"
    unfolding nodes using old_not_endpoint new_endpoint by (simp add: filter_empty_conv)
  have edges: "absEdges this = absEdges before @ es"
    using ins by (simp add: insertedOver_def)
  have old_not_incident: "\<not> isIncident (map getNum ns) ie" if "ie \<in> set (absEdges before)" for ie
  proof -
    have "getFrom (snd ie) < length (absNodes before)" "getTo (snd ie) < length (absNodes before)"
      using wf that by (auto simp: wellFormed_def)
    moreover have "\<forall>n \<in> set ns. length (absNodes before) \<le> getNum n"
      using ins by (simp add: insertedOver_def)
    ultimately show ?thesis by (auto simp: isIncident_def)
  qed
  have new_incident: "isIncident (map getNum ns) ie" if "ie \<in> set es" for ie
    using ins that by (simp add: insertedOver_def)
  have deletedEdges: "filter (isIncident (map getNum ns)) (absEdges this) = es"
    unfolding edges using old_not_incident new_incident by (simp add: filter_empty_conv)
  have keptEdges: "filter (\<lambda>ie. \<not> isIncident (map getNum ns) ie) (absEdges this) = absEdges before"
    unfolding edges using old_not_incident new_incident by (simp add: filter_empty_conv)
  have cache: "fold dropPathFromCache (map fst es) (pathCache this) = pathCache before"
  proof
    fix k
    show "fold dropPathFromCache (map fst es) (pathCache this) k = pathCache before k"
    proof (cases "k \<in> fst ` set es")
      case True
      then have "uniqueIDCounter before \<le> k" using ins by (auto simp: insertedOver_def)
      then have "pathCache before k = None" using wf by (auto simp: wellFormed_def)
      with True show ?thesis by (simp add: fold_dropPathFromCache)
    next
      case False
      then have "pathCache this k = pathCache before k" using ins by (simp add: insertedOver_def)
      with False show ?thesis by (simp add: fold_dropPathFromCache)
    qed
  qed
  have ground: "fold resetParentLabel ns (groundNodes this) = groundNodes before"
  proof
    fix k
    show "fold resetParentLabel ns (groundNodes this) k = groundNodes before k"
    proof (cases "k \<in> (\<lambda>n. nat (kParent n)) ` set ns")
      case True
      then have "(groundNodes this k)\<lparr>kParent := - 1\<rparr> = groundNodes before k"
        using ins by (auto simp: insertedOver_def)
      with True show ?thesis by (simp add: fold_resetParentLabel)
    next
      case False
      then have "groundNodes this k = groundNodes before k" using ins by (simp add: insertedOver_def)
      with False show ?thesis by (simp add: fold_resetParentLabel)
    qed
  qed
  show "absNodes (removeStartAndGoalNodesFromAbstractGraph this) = absNodes before"
    by (simp add: removeStartAndGoalNodesFromAbstractGraph_def Let_def kept)
  show "absEdges (removeStartAndGoalNodesFromAbstractGraph this) = absEdges before"
    by (simp add: removeStartAndGoalNodesFromAbstractGraph_def Let_def deleted keptEdges)
  show "pathCache (removeStartAndGoalNodesFromAbstractGraph this) = pathCache before"
    by (simp add: removeStartAndGoalNodesFromAbstractGraph_def Let_def deleted deletedEdges cache)
  show "groundNodes (removeStartAndGoalNodesFromAbstractGraph this) = groundNodes before"
    by (simp add: removeStartAndGoalNodesFromAbstractGraph_def Let_def deleted ground)
  show "startid (removeStartAndGoalNodesFromAbstractGraph this) = - 1"
    "goalid (removeStartAndGoalNodesFromAbstractGraph this) = - 1"
    by (simp_all add: removeStartAndGoalNodesFromAbstractGraph_def Let_def)
qed

lemma insertEndpoint_ids:
  "goalid (insertEndpoint aastar d c k True p this) = goalid this"
  "startid (insertEndpoint aastar d c k False p this) = startid this"
  by (simp_all add: insertEndpoint_def Let_def)

lemma insertEndpoint_insertedOver:
  assumes wf: "wellFormed before" and ins: "insertedOver before ns es this"
    and fresh: "if isStart then startid this = - 1 else goalid this = - 1"
  shows "\<exists>ns' es'. insertedOver before ns' es' (insertEndpoint aastar d c k isStart p this)"
proof (cases "kParent (groundNodes this p) \<ge> 0")
  case True
  then have "insertEndpoint aastar d c k isStart p this = this"
    by (simp add: insertEndpoint_def)
  with ins show ?thesis by auto
next
  case False
  define newId where "newId = length (absNodes this)"
  define P where "P = (groundNodes this p)\<lparr>getNum := newId, kParent := int p, kAbstractionLevel := 1\<rparr>"
  define recorded where "recorded =
     (if isStart
      then this\<lparr>groundNodes := (groundNodes this)(p := (groundNodes this p)\<lparr>kParent := int newId\<rparr>),
                absNodes := absNodes this @ [P], startid := int newId\<rparr>
      else this\<lparr>groundNodes := (groundNodes this)(p := (groundNodes this p)\<lparr>kParent := int newId\<rparr>),
                absNodes := absNodes this @ [P], goalid := int newId\<rparr>)"
  define r where "r = insertEndpoint aastar d c k isStart p this"
  have r: "r = connectNewNode aastar d c k P p (absNodes this) recorded"
    using False by (simp add: r_def insertEndpoint_def Let_def recorded_def P_def newId_def)
  have P: "getNum P = newId" "kParent P = int p"
    by (simp_all add: P_def)
  have rec_nodes: "absNodes recorded = absNodes this @ [P]"
    and rec_edges: "absEdges recorded = absEdges this"
    and rec_cache: "pathCache recorded = pathCache this"
    and rec_counter: "uniqueIDCounter recorded = uniqueIDCounter this"
    and rec_ground: "groundNodes recorded
        = (groundNodes this)(p := (groundNodes this p)\<lparr>kParent := int newId\<rparr>)"
    by (simp_all add: recorded_def)
  have rec_start: "startid recorded = (if isStart then int newId else startid this)"
    and rec_goal: "goalid recorded = (if isStart then goalid this else int newId)"
    by (simp_all add: recorded_def)
  obtain es' where es': "absEdges r = absEdges recorded @ es'"
    "\<forall>ie \<in> set es'. getFrom (snd ie) = getNum P \<and> uniqueIDCounter recorded \<le> fst ie
        \<and> fst ie < uniqueIDCounter r"
    "uniqueIDCounter recorded \<le> uniqueIDCounter r"
    "\<forall>i. i \<notin> fst ` set es' \<longrightarrow> pathCache r i = pathCache recorded i"
    using connectNewNode_edges[of aastar d c k P p "absNodes this" recorded] unfolding r by blast
  have r_nodes: "absNodes r = absNodes this @ [P]"
    and r_ground: "groundNodes r = (groundNodes this)(p := (groundNodes this p)\<lparr>kParent := int newId\<rparr>)"
    and r_start: "startid r = (if isStart then int newId else startid this)"
    and r_goal: "goalid r = (if isStart then goalid this else int newId)"
    by (simp_all add: r rec_nodes rec_ground rec_start rec_goal)
  have nodes: "absNodes this = absNodes before @ ns"
    and edges: "absEdges this = absEdges before @ es"
    using ins by (simp_all add: insertedOver_def)
  have len: "length (absNodes before) \<le> newId"
    by (simp add: newId_def nodes)
  have p_notin: "p \<notin> (\<lambda>n. nat (kParent n)) ` set ns"
  proof
    assume "p \<in> (\<lambda>n. nat (kParent n)) ` set ns"
    then obtain n where "n \<in> set ns" "p = nat (kParent n)" by blast
    then have "0 \<le> kParent (groundNodes this p)" using ins by (simp add: insertedOver_def)
    with False show False by simp
  qed
  then have p_same: "groundNodes this p = groundNodes before p"
    using ins by (simp add: insertedOver_def)
  have p_label: "kParent (groundNodes before p) = - 1"
  proof -
    have "- 1 \<le> kParent (groundNodes before p)" using wf by (simp add: wellFormed_def)
    with False p_same show ?thesis by simp
  qed
  have old_endpoint: "isEndpointNode r n" if "n \<in> set ns" for n
  proof -
    have "isEndpointNode this n" using ins that by (simp add: insertedOver_def)
    moreover have "length (absNodes before) \<le> getNum n" using ins that by (simp add: insertedOver_def)
    ultimately show ?thesis
      using fresh by (auto simp: isEndpointNode_def r_start r_goal split: if_splits)
  qed
  have new_endpoint: "isEndpointNode r P"
    by (simp add: isEndpointNode_def r_start r_goal P)
  have "insertedOver before (ns @ [P]) (es @ es') r"
    unfolding insertedOver_def
  proof (intro conjI)
    show "absNodes r = absNodes before @ ns @ [P]"
      by (simp add: r_nodes nodes)
    show "absEdges r = absEdges before @ es @ es'"
      by (simp add: es'(1) rec_edges edges)
    show "\<forall>n \<in> set (ns @ [P]).
            length (absNodes before) \<le> getNum n \<and> isEndpointNode r n
            \<and> kParent (groundNodes before (nat (kParent n))) = - 1
            \<and> 0 \<le> kParent (groundNodes r (nat (kParent n)))
            \<and> (groundNodes r (nat (kParent n)))\<lparr>kParent := - 1\<rparr>
                = groundNodes before (nat (kParent n))"
    proof
      fix n assume "n \<in> set (ns @ [P])"
      then consider "n \<in> set ns" | "n = P" by auto
      then show "length (absNodes before) \<le> getNum n \<and> isEndpointNode r n
            \<and> kParent (groundNodes before (nat (kParent n))) = - 1
            \<and> 0 \<le> kParent (groundNodes r (nat (kParent n)))
            \<and> (groundNodes r (nat (kParent n)))\<lparr>kParent := - 1\<rparr>
                = groundNodes before (nat (kParent n))"
      proof cases
        case 1
        then have ne: "nat (kParent n) \<noteq> p" using p_notin by auto
        have "length (absNodes before) \<le> getNum n
            \<and> kParent (groundNodes before (nat (kParent n))) = - 1
            \<and> 0 \<le> kParent (groundNodes this (nat (kParent n)))
            \<and> (groundNodes this (nat (kParent n)))\<lparr>kParent := - 1\<rparr>
                = groundNodes before (nat (kParent n))"
          using ins 1 by (simp add: insertedOver_def)
        then show ?thesis using old_endpoint[OF 1] ne by (simp add: r_ground)
      next
        case 2
        have "(groundNodes before p)\<lparr>kParent := - 1\<rparr> = groundNodes before p"
          using p_label by (cases "groundNodes before p") simp
        then show ?thesis
          using len new_endpoint p_label p_same by (simp add: 2 P r_ground)
      qed
    qed
    show "startid r = - 1 \<or> int (length (absNodes before)) \<le> startid r"
      using ins len by (auto simp: r_start insertedOver_def)
    show "goalid r = - 1 \<or> int (length (absNodes before)) \<le> goalid r"
      using ins len by (auto simp: r_goal insertedOver_def)
    have cnt: "uniqueIDCounter before \<le> uniqueIDCounter this"
      using ins by (simp add: insertedOver_def)
    show "\<forall>ie \<in> set (es @ es').
            isIncident (map getNum (ns @ [P])) ie
            \<and> uniqueIDCounter before \<le> fst ie \<and> fst ie < uniqueIDCounter r"
    proof
      fix ie assume "ie \<in> set (es @ es')"
      then consider "ie \<in> set es" | "ie \<in> set es'" by auto
      then show "isIncident (map getNum (ns @ [P])) ie
            \<and> uniqueIDCounter before \<le> fst ie \<and> fst ie < uniqueIDCounter r"
      proof cases
        case 1
        then have "isIncident (map getNum ns) ie \<and> uniqueIDCounter before \<le> fst ie
            \<and> fst ie < uniqueIDCounter this"
          using ins by (simp add: insertedOver_def)
        then show ?thesis using es'(3) rec_counter by (auto simp: isIncident_def)
      next
        case 2
        then have "getFrom (snd ie) = getNum P \<and> uniqueIDCounter recorded \<le> fst ie
            \<and> fst ie < uniqueIDCounter r"
          using es'(2) by blast
        then show ?thesis using cnt rec_counter by (auto simp: isIncident_def)
      qed
    qed
    show "uniqueIDCounter before \<le> uniqueIDCounter r"
      using cnt es'(3) rec_counter by simp
    show "\<forall>i. i \<notin> fst ` set (es @ es') \<longrightarrow> pathCache r i = pathCache before i"
    proof (intro allI impI)
      fix i assume i: "i \<notin> fst ` set (es @ es')"
      then have "pathCache r i = pathCache recorded i" using es'(4) by auto
      moreover have "pathCache this i = pathCache before i"
        using ins i by (auto simp: insertedOver_def)
      ultimately show "pathCache r i = pathCache before i" by (simp add: rec_cache)
    qed
    show "\<forall>i. i \<notin> (\<lambda>n. nat (kParent n)) ` set (ns @ [P]) \<longrightarrow> groundNodes r i = groundNodes before i"
    proof (intro allI impI)
      fix i assume i: "i \<notin> (\<lambda>n. nat (kParent n)) ` set (ns @ [P])"
      then have "i \<noteq> p" by (auto simp: P)
      moreover have "groundNodes this i = groundNodes before i"
        using ins i by (auto simp: insertedOver_def)
      ultimately show "groundNodes r i = groundNodes before i" by (simp add: r_ground)
    qed
  qed
  then show ?thesis unfolding r_def by blast
qed

lemma insert_insertedOver:
  assumes wf: "wellFormed this"
    and ok: "insertStartAndGoalNodesIntoAbstractGraph aastar d c k this start goal = Inr inserted"
  shows "\<exists>ns es. insertedOver this ns es inserted"
proof -
  obtain s g where sg: "start = Some s" "goal = Some g"
    and ins: "inserted = insertEndpoint aastar d c k False g (insertEndpoint aastar d c k True s this)"
    using ok by (auto simp: insertStartAndGoalNodesIntoAbstractGraph_def
        split: option.splits if_splits)
  have "startid this = - 1" "goalid this = - 1"
    using wf by (simp_all add: wellFormed_def)
  then obtain ns1 es1 where one: "insertedOver this ns1 es1 (insertEndpoint aastar d c k True s this)"
    using insertEndpoint_insertedOver[OF wf insertedOver_refl[OF wf], of True aastar d c k s]
    by auto
  have "goalid (insertEndpoint aastar d c k True s this) = - 1"
    using \<open>goalid this = - 1\<close> by (simp add: insertEndpoint_ids)
  then show ?thesis
    using insertEndpoint_insertedOver[OF wf one, of False aastar d c k g]
    unfolding ins by auto
qed

text \<open>
  C3. From a state between two queries, when the insertion of a start and a goal
  succeeds (both are valid), the removal that follows leaves the number of abstract
  nodes, the number of abstract edges, the size of the path cache, the \<open>kParent\<close>
  label of every ground node, and \<open>startid\<close> and \<open>goalid\<close> as they were before the
  insertion, \<open>startid\<close> and \<open>goalid\<close> being -1; the abstract nodes, the abstract
  edges, the cache and the ground nodes are the same in content as well.
\<close>

theorem insert_then_remove_restores:
  assumes "wellFormed this"
    and "insertStartAndGoalNodesIntoAbstractGraph aastar distance capability clearance
           this start goal = Inr inserted"
  shows "length (absNodes (removeStartAndGoalNodesFromAbstractGraph inserted))
           = length (absNodes this)
         \<and> length (absEdges (removeStartAndGoalNodesFromAbstractGraph inserted))
           = length (absEdges this)
         \<and> getPathCacheSize (removeStartAndGoalNodesFromAbstractGraph inserted)
           = getPathCacheSize this
         \<and> (\<forall>k. kParent (groundNodes (removeStartAndGoalNodesFromAbstractGraph inserted) k)
                = kParent (groundNodes this k))
         \<and> startid (removeStartAndGoalNodesFromAbstractGraph inserted) = startid this
         \<and> goalid (removeStartAndGoalNodesFromAbstractGraph inserted) = goalid this
         \<and> startid (removeStartAndGoalNodesFromAbstractGraph inserted) = - 1
         \<and> goalid (removeStartAndGoalNodesFromAbstractGraph inserted) = - 1
         \<and> absNodes (removeStartAndGoalNodesFromAbstractGraph inserted) = absNodes this
         \<and> absEdges (removeStartAndGoalNodesFromAbstractGraph inserted) = absEdges this
         \<and> pathCache (removeStartAndGoalNodesFromAbstractGraph inserted) = pathCache this
         \<and> groundNodes (removeStartAndGoalNodesFromAbstractGraph inserted) = groundNodes this"
proof -
  obtain ns es where ins: "insertedOver this ns es inserted"
    using insert_insertedOver[OF assms] by blast
  have ids: "startid this = - 1" "goalid this = - 1"
    using assms(1) by (simp_all add: wellFormed_def)
  show ?thesis
    using remove_insertedOver[OF assms(1) ins] ids
    by (simp add: getPathCacheSize_def)
qed

lemma exampleACA_wellFormed: "wellFormed exampleACA"
  by (simp add: wellFormed_def exampleACA_def exampleGroundNode_def exampleNode_def)

lemma exampleACA_insert:
  "insertStartAndGoalNodesIntoAbstractGraph exampleAStar exampleDistance 1 1 exampleACA
     (Some 0) (Some 2) = Inr exampleInserted"
  by (simp add: insertStartAndGoalNodesIntoAbstractGraph_def exampleInserted_def traversable_def
      exampleACA_def exampleGroundNode_def exampleNode_def)

lemmas exampleACA_eval =
  exampleInserted_def insertEndpoint_def exampleACA_def exampleGroundNode_def exampleNode_def
  exampleAStar_def exampleDistance_def Let_def addAbstractEdge_def addPathToCache_def new_edge_def

lemma exampleInserted_fields:
  "map getNum (absNodes exampleInserted) = [0, 1, 2]"
  "map (\<lambda>ie. (fst ie, getFrom (snd ie), getTo (snd ie))) (absEdges exampleInserted) = [(0, 1, 0)]"
  "startid exampleInserted = 1"
  "goalid exampleInserted = 2"
  "kParent (groundNodes exampleInserted 0) = 1"
  "kParent (groundNodes exampleInserted 2) = 2"
  "pathCache exampleInserted = [0 \<mapsto> [0, 1]]"
  by (simp_all add: exampleACA_eval)

text \<open>
  In the example the insertion of the ground nodes 0 and 2 adds two abstract nodes, one
  abstract edge and its cached path, and the removal takes them away again.
\<close>

theorem insert_then_remove_restores_witness:
  "wellFormed exampleACA
   \<and> insertStartAndGoalNodesIntoAbstractGraph exampleAStar exampleDistance 1 1 exampleACA
       (Some 0) (Some 2) = Inr exampleInserted
   \<and> length (absNodes exampleInserted) = 3
   \<and> length (absNodes (removeStartAndGoalNodesFromAbstractGraph exampleInserted)) = 1
   \<and> length (absEdges exampleInserted) = 1
   \<and> length (absEdges (removeStartAndGoalNodesFromAbstractGraph exampleInserted)) = 0
   \<and> getPathCacheSize exampleInserted = 1
   \<and> getPathCacheSize (removeStartAndGoalNodesFromAbstractGraph exampleInserted) = 0
   \<and> kParent (groundNodes exampleInserted 0) = 1
   \<and> kParent (groundNodes (removeStartAndGoalNodesFromAbstractGraph exampleInserted) 0) = - 1
   \<and> startid exampleInserted = 1
   \<and> startid (removeStartAndGoalNodesFromAbstractGraph exampleInserted) = - 1
   \<and> goalid exampleInserted = 2
   \<and> goalid (removeStartAndGoalNodesFromAbstractGraph exampleInserted) = - 1"
proof -
  have before: "length (absNodes exampleACA) = 1" "length (absEdges exampleACA) = 0"
    "getPathCacheSize exampleACA = 0" "kParent (groundNodes exampleACA 0) = - 1"
    by (simp_all add: exampleACA_def getPathCacheSize_def exampleGroundNode_def exampleNode_def)
  have after: "length (absNodes exampleInserted) = 3" "length (absEdges exampleInserted) = 1"
    "getPathCacheSize exampleInserted = 1"
    using exampleInserted_fields(1,2)[THEN arg_cong[of _ _ length]]
    by (simp_all add: getPathCacheSize_def exampleInserted_fields(7))
  show ?thesis
    using insert_then_remove_restores[OF exampleACA_wellFormed exampleACA_insert]
      exampleACA_wellFormed exampleACA_insert before after exampleInserted_fields(3-6)
    by simp
qed

section \<open>Properties of getPath\<close>

lemma getPath_search_failed:
  assumes "insertStartAndGoalNodesIntoAbstractGraph aastar distance
             (getCapability this) (getClearance this) aca (Some f) (Some t) = Inr aca1"
    and "getAbstractPath aca1 (getNode (absNodes aca1) (kParent (groundNodes aca1 f)))
           (getNode (absNodes aca1) (kParent (groundNodes aca1 t))) = None"
  shows "getPath getAbstractPath aastar distance this aca (Some f) (Some t) = (Returned None, aca1)"
  using assms by (simp add: getPath_def Let_def)

lemma exampleInserted_nodes:
  "absNodes exampleInserted =
     [(exampleGroundNode 0)\<lparr>kParent := 1, kAbstractionLevel := 1, getParentCluster := 0\<rparr>,
      (exampleGroundNode 0)\<lparr>getNum := 1, kParent := 0, kAbstractionLevel := 1,
                             getParentCluster := 0\<rparr>,
      (exampleGroundNode 2)\<lparr>getNum := 2, kParent := 2, kAbstractionLevel := 1,
                             getParentCluster := 1\<rparr>]"
  by (simp add: exampleACA_eval)

lemma exampleInserted_edges:
  "absEdges exampleInserted = [(0, (new_edge 1 0 1)\<lparr>edgeClearance := (\<lambda>_. 0)(1 := 1)\<rparr>)]"
  by (simp add: exampleACA_eval)

lemma exampleInserted_search:
  "exampleAbstractSearch exampleInserted
     (getNode (absNodes exampleInserted) (kParent (groundNodes exampleInserted 0)))
     (getNode (absNodes exampleInserted) (kParent (groundNodes exampleInserted 2))) = None"
  unfolding exampleAbstractSearch_def exampleInserted_fields(5,6) exampleInserted_nodes
    exampleInserted_edges
  by (simp add: getNode_def exampleGroundNode_def exampleNode_def new_edge_def
      List.map_filter_def eval_nat_numeral)

text \<open>
  C1 does not hold of \<^verbatim>\<open>getPath\<close>: on the exit path of the test
  \<^verbatim>\<open>if(!abspath) return NULL\<close> the endpoints are not removed. In the example the
  ground nodes 0 and 2 lie in clusters that no abstract edge joins, the abstract search
  finds no path, and the call returns null with the state of the insertion: \<open>startid\<close>
  and \<open>goalid\<close> are 1 and 2, not -1, and the two abstract nodes, the abstract edge,
  the cached path and the \<open>kParent\<close> label of the insertion are still there; the
  removal would have changed this state.
\<close>

theorem getPath_keeps_endpoints_example:
  "getPath exampleAbstractSearch exampleAStar exampleDistance exampleQuery exampleACA
     (Some 0) (Some 2) = (Returned None, exampleInserted)
   \<and> startid exampleACA = - 1 \<and> startid exampleInserted = 1
   \<and> goalid exampleACA = - 1 \<and> goalid exampleInserted = 2
   \<and> length (absNodes exampleACA) = 1 \<and> length (absNodes exampleInserted) = 3
   \<and> length (absEdges exampleACA) = 0 \<and> length (absEdges exampleInserted) = 1
   \<and> getPathCacheSize exampleACA = 0 \<and> getPathCacheSize exampleInserted = 1
   \<and> kParent (groundNodes exampleACA 0) = - 1 \<and> kParent (groundNodes exampleInserted 0) = 1
   \<and> removeStartAndGoalNodesFromAbstractGraph exampleInserted \<noteq> exampleInserted"
proof -
  have q: "getCapability exampleQuery = 1" "getClearance exampleQuery = 1"
    by (simp_all add: exampleQuery_def)
  have "getPath exampleAbstractSearch exampleAStar exampleDistance exampleQuery exampleACA
     (Some 0) (Some 2) = (Returned None, exampleInserted)"
    by (rule getPath_search_failed) (simp_all add: q exampleACA_insert exampleInserted_search)
  moreover have "startid exampleACA = - 1" "goalid exampleACA = - 1"
    "length (absNodes exampleACA) = 1" "length (absEdges exampleACA) = 0"
    "getPathCacheSize exampleACA = 0" "kParent (groundNodes exampleACA 0) = - 1"
    by (simp_all add: exampleACA_def getPathCacheSize_def exampleGroundNode_def exampleNode_def)
  moreover have "length (absNodes exampleInserted) = 3" "length (absEdges exampleInserted) = 1"
    "getPathCacheSize exampleInserted = 1"
    by (simp_all add: exampleInserted_nodes exampleInserted_edges getPathCacheSize_def
        exampleInserted_fields(7))
  moreover have "removeStartAndGoalNodesFromAbstractGraph exampleInserted \<noteq> exampleInserted"
  proof
    assume "removeStartAndGoalNodesFromAbstractGraph exampleInserted = exampleInserted"
    then have "startid (removeStartAndGoalNodesFromAbstractGraph exampleInserted)
        = startid exampleInserted" by simp
    then show False
      by (simp add: removeStartAndGoalNodesFromAbstractGraph_def Let_def exampleInserted_fields(3))
  qed
  ultimately show ?thesis
    using exampleInserted_fields(3-5) by simp
qed

text \<open>
  On the exit path of a found path the endpoints are removed: between the ground nodes
  0 and 1 of the example the call returns the cached path and leaves \<open>startid\<close> at
  -1 and one abstract node, as before the call.
\<close>

lemma getPath_removes_example:
  "fst (getPath exampleAbstractSearch exampleAStar exampleDistance exampleQuery exampleACA
     (Some 0) (Some 1)) = Returned (Some [0, 1])
   \<and> startid (snd (getPath exampleAbstractSearch exampleAStar exampleDistance exampleQuery
        exampleACA (Some 0) (Some 1))) = - 1
   \<and> length (absNodes (snd (getPath exampleAbstractSearch exampleAStar exampleDistance
        exampleQuery exampleACA (Some 0) (Some 1)))) = 1"
proof -
  define aca1 where "aca1 = insertEndpoint exampleAStar exampleDistance 1 1 False 1
       (insertEndpoint exampleAStar exampleDistance 1 1 True 0 exampleACA)"
  have q: "getCapability exampleQuery = 1" "getClearance exampleQuery = 1"
    by (simp_all add: exampleQuery_def)
  have ins: "insertStartAndGoalNodesIntoAbstractGraph exampleAStar exampleDistance
      (getCapability exampleQuery) (getClearance exampleQuery) exampleACA (Some 0) (Some 1)
      = Inr aca1"
    by (simp add: insertStartAndGoalNodesIntoAbstractGraph_def aca1_def traversable_def
      exampleACA_def exampleGroundNode_def exampleNode_def exampleQuery_def)
  have nodes: "absNodes aca1 =
     [(exampleGroundNode 0)\<lparr>kParent := 1, kAbstractionLevel := 1, getParentCluster := 0\<rparr>,
      (exampleGroundNode 0)\<lparr>getNum := 1, kParent := 0, kAbstractionLevel := 1,
                             getParentCluster := 0\<rparr>]"
    and edges: "absEdges aca1 = [(0, (new_edge 1 0 1)\<lparr>edgeClearance := (\<lambda>_. 0)(1 := 1)\<rparr>)]"
    and labels: "kParent (groundNodes aca1 0) = 1" "kParent (groundNodes aca1 1) = 0"
    and cache: "pathCache aca1 = [0 \<mapsto> [0, 1]]"
    and ids: "startid aca1 = 1" "goalid aca1 = - 1"
    unfolding aca1_def by (simp_all add: exampleACA_eval)
  have search: "exampleAbstractSearch aca1
     (getNode (absNodes aca1) (kParent (groundNodes aca1 0)))
     (getNode (absNodes aca1) (kParent (groundNodes aca1 1))) = Some [1, 0]"
    unfolding exampleAbstractSearch_def labels nodes edges
    by (simp add: getNode_def exampleGroundNode_def exampleNode_def new_edge_def
      List.map_filter_def eval_nat_numeral)
  have rec: "reconstruct aca1 1 1 [1, 0]
      = (Returned (Some [0, 1]), removeStartAndGoalNodesFromAbstractGraph aca1)"
    by (simp add: reconstruct_def findAnnotatedEdge_def edges getPathFromCache_def cache
        new_edge_def MAXINT_def)
  have "getPath exampleAbstractSearch exampleAStar exampleDistance exampleQuery exampleACA
     (Some 0) (Some 1) = (Returned (Some [0, 1]), removeStartAndGoalNodesFromAbstractGraph aca1)"
    using ins search rec by (simp add: getPath_def q Let_def)
  moreover have "startid (removeStartAndGoalNodesFromAbstractGraph aca1) = - 1"
    by (simp add: removeStartAndGoalNodesFromAbstractGraph_def Let_def)
  moreover have "length (absNodes (removeStartAndGoalNodesFromAbstractGraph aca1)) = 1"
    by (simp add: removeStartAndGoalNodesFromAbstractGraph_def Let_def nodes ids
        isEndpointNode_def exampleGroundNode_def exampleNode_def)
  ultimately show ?thesis by simp
qed

end
